theory Spec2Isabelle
  imports Main
begin

section \<open>Python strings\<close>

text \<open>
  A Python \<open>str\<close> is modelled as a \<open>string\<close>, one \<open>char\<close> per code point; the model
  covers the code points below 256 (Latin-1), on which \<open>str.isspace\<close> and \<open>str.lower\<close>
  are the two functions below.
\<close>

definition py_isspace :: "char \<Rightarrow> bool" where
  "py_isspace c = ((of_char c :: nat) \<in> {9, 10, 11, 12, 13, 28, 29, 30, 31, 32, 133, 160})"

definition py_lower_char :: "char \<Rightarrow> char" where
  "py_lower_char c =
     (let n = (of_char c :: nat)
      in if (65 \<le> n \<and> n \<le> 90) \<or> (192 \<le> n \<and> n \<le> 222 \<and> n \<noteq> 215)
         then char_of (n + 32) else c)"

definition py_lower :: "string \<Rightarrow> string" where
  "py_lower s = map py_lower_char s"

text \<open>\<open>s.strip()\<close>: whitespace removed at both ends.\<close>

definition py_lstrip :: "string \<Rightarrow> string" where
  "py_lstrip s = dropWhile py_isspace s"

definition py_rstrip :: "string \<Rightarrow> string" where
  "py_rstrip s = rev (dropWhile py_isspace (rev s))"

definition py_strip :: "string \<Rightarrow> string" where
  "py_strip s = py_rstrip (py_lstrip s)"

text \<open>
  \<open>s.split(maxsplit=1)\<close>: leading whitespace is skipped, the first run of non-blank
  characters is the first part, and what follows the next run of whitespace, if anything,
  is the second part, left as it is.
\<close>

definition py_split_max1 :: "string \<Rightarrow> string list" where
  "py_split_max1 s =
     (let s1 = dropWhile py_isspace s
      in if s1 = [] then []
         else let tok = takeWhile (\<lambda>c. \<not> py_isspace c) s1;
                  rest = dropWhile py_isspace (dropWhile (\<lambda>c. \<not> py_isspace c) s1)
              in if rest = [] then [tok] else [tok, rest])"

section \<open>The command registry (vibe/cli/commands.py)\<close>

record command =
  aliases :: "string list"
  description :: string
  handler :: string
  exits :: bool
  subcommands :: "(string \<times> string) list option"

record plugin_command =
  name :: string
  plugin_name :: string
  pc_description :: string
  prompt_file :: string

record command_registry =
  commands :: "(string \<times> command) list"
  plugin_commands :: "string \<rightharpoonup> plugin_command"
  alias_map :: "string \<rightharpoonup> string"

definition mk_command :: "string list \<Rightarrow> string \<Rightarrow> string \<Rightarrow> command" where
  "mk_command als d h =
     \<lparr>aliases = als, description = d, handler = h, exits = False, subcommands = None\<rparr>"

text \<open>The dictionary of built-in commands that \<open>CommandRegistry.__init__\<close> starts from.\<close>

definition builtin_commands :: "(string \<times> command) list" where
  "builtin_commands =
     [(''help'', mk_command [''/help'', ''/h''] ''Show help message'' ''_show_help''),
      (''status'', mk_command [''/status'', ''/stats''] ''Display agent statistics'' ''_show_status''),
      (''config'', mk_command [''/config'', ''/cfg'', ''/theme'', ''/model'']
         ''Edit config settings'' ''_show_config''),
      (''reload'', mk_command [''/reload'', ''/r''] ''Reload configuration from disk''
         ''_reload_config''),
      (''clear'', mk_command [''/clear'', ''/reset''] ''Clear conversation history''
         ''_clear_history''),
      (''log'', mk_command [''/log'', ''/logpath'']
         ''Show path to current interaction log file'' ''_show_log_path''),
      (''compact'', mk_command [''/compact'', ''/summarize'']
         ''Compact conversation history by summarizing'' ''_compact_history''),
      (''plugin'', (mk_command [''/plugin'', ''/plugins'']
         ''Manage plugins (install, list, remove)'' ''_handle_plugin_command'')
         \<lparr>subcommands := Some
            [(''install'', ''Install a plugin from GitHub or marketplace''),
             (''remove'', ''Remove an installed plugin''),
             (''list'', ''List installed plugins''),
             (''enable'', ''Enable a disabled plugin''),
             (''disable'', ''Disable a plugin''),
             (''marketplace'', ''Manage plugin marketplaces'')]\<rparr>),
      (''subagent'', mk_command [''/subagent'', ''/subagents'']
         ''Run a plugin subagent prompt'' ''_run_subagent''),
      (''exit'', (mk_command [''/exit'', ''/quit'', ''/q''] ''Exit the application'' ''_exit_app'')
         \<lparr>exits := True\<rparr>)]"

text \<open>\<open>self.commands.pop(command, None)\<close>\<close>

definition dict_pop :: "string \<Rightarrow> (string \<times> command) list \<Rightarrow> (string \<times> command) list" where
  "dict_pop k d = filter (\<lambda>kv. fst kv \<noteq> k) d"

text \<open>The two nested loops that fill \<open>_alias_map\<close>.\<close>

definition add_aliases :: "string \<times> command \<Rightarrow> (string \<rightharpoonup> string) \<Rightarrow> (string \<rightharpoonup> string)" where
  "add_aliases kv m = fold (\<lambda>alias m'. m'(alias \<mapsto> fst kv)) (aliases (snd kv)) m"

definition build_alias_map :: "(string \<times> command) list \<Rightarrow> (string \<rightharpoonup> string)" where
  "build_alias_map cmds = fold add_aliases cmds Map.empty"

definition CommandRegistry :: "string list \<Rightarrow> command_registry" where
  "CommandRegistry excluded_commands =
     (let cmds = fold dict_pop excluded_commands builtin_commands
      in \<lparr>commands = cmds, plugin_commands = Map.empty, alias_map = build_alias_map cmds\<rparr>)"

definition full_alias :: "plugin_command \<Rightarrow> string" where
  "full_alias cmd = ''/'' @ plugin_name cmd @ '':'' @ name cmd"

definition short_alias :: "plugin_command \<Rightarrow> string" where
  "short_alias cmd = ''/'' @ name cmd"

definition register_plugin_command :: "command_registry \<Rightarrow> plugin_command \<Rightarrow> command_registry" where
  "register_plugin_command r cmd =
     (let pc1 = (plugin_commands r)(full_alias cmd \<mapsto> cmd)
      in if alias_map r (short_alias cmd) = None \<and> pc1 (short_alias cmd) = None
         then r\<lparr>plugin_commands := pc1(short_alias cmd \<mapsto> cmd)\<rparr>
         else r\<lparr>plugin_commands := pc1\<rparr>)"

definition set_plugin_commands :: "command_registry \<Rightarrow> plugin_command list \<Rightarrow> command_registry" where
  "set_plugin_commands r cmds =
     fold (\<lambda>c r'. register_plugin_command r' c) cmds (r\<lparr>plugin_commands := Map.empty\<rparr>)"

definition base_cmd :: "string list \<Rightarrow> string" where
  "base_cmd parts = (case parts of [] \<Rightarrow> [] | p # _ \<Rightarrow> p)"

definition find_command :: "command_registry \<Rightarrow> string \<Rightarrow> command option" where
  "find_command r user_input =
     (let parts = py_split_max1 (py_strip (py_lower user_input))
      in case alias_map r (base_cmd parts) of
           None \<Rightarrow> None
         | Some cmd_name \<Rightarrow> if cmd_name = [] then None else map_of (commands r) cmd_name)"

definition find_plugin_command :: "command_registry \<Rightarrow> string \<Rightarrow> plugin_command option" where
  "find_plugin_command r user_input =
     (let parts = py_split_max1 (py_strip user_input)
      in plugin_commands r (py_lower (base_cmd parts)))"

text \<open>A plugin command that offers the name of a built-in.\<close>

definition status_plugin_cmd :: plugin_command where
  "status_plugin_cmd = \<lparr>name = ''status'', plugin_name = ''tools'', pc_description = ''Show tool status'',
      prompt_file = ''commands/status.md''\<rparr>"

text \<open>Two plugins offering the same command name.\<close>

definition alpha_deploy :: plugin_command where
  "alpha_deploy = \<lparr>name = ''deploy'', plugin_name = ''alpha'', pc_description = ''Deploy with alpha'',
      prompt_file = ''commands/deploy.md''\<rparr>"

definition beta_deploy :: plugin_command where
  "beta_deploy = \<lparr>name = ''deploy'', plugin_name = ''beta'', pc_description = ''Deploy with beta'',
      prompt_file = ''commands/deploy.md''\<rparr>"

text \<open>\<open>s.startswith(p)\<close>, \<open>s.endswith(p)\<close> and \<open>s.rstrip(chars)\<close>.\<close>

definition py_startswith :: "string \<Rightarrow> string \<Rightarrow> bool" where
  "py_startswith p s = (take (length p) s = p)"

definition py_endswith :: "string \<Rightarrow> string \<Rightarrow> bool" where
  "py_endswith p s = (length p \<le> length s \<and> drop (length s - length p) s = p)"

definition py_rstrip_chars :: "string \<Rightarrow> string \<Rightarrow> string" where
  "py_rstrip_chars chars s = rev (dropWhile (\<lambda>c. c \<in> set chars) (rev s))"

text \<open>\<open>PluginManager._normalize_repo\<close> (vibe/core/plugins/manager.py).\<close>

definition normalize_repo :: "string \<Rightarrow> string" where
  "normalize_repo source =
     (let s0 = py_strip source;
          s1 = (if py_startswith ''https://github.com/'' s0 then drop 19 s0
                else if py_startswith ''github.com/'' s0 then drop 11 s0
                else s0);
          s2 = (if py_endswith ''.git'' s1 then take (length s1 - 4) s1 else s1)
      in py_rstrip_chars ''/'' s2)"

text \<open>A plugin whose names carry uppercase letters.\<close>

definition foo_plan :: plugin_command where
  "foo_plan = \<lparr>name = ''Plan'', plugin_name = ''Foo'', pc_description = ''Plan the work'',
      prompt_file = ''commands/plan.md''\<rparr>"

section \<open>Paths, files and JSON values\<close>

text \<open>Exceptions that the plugin manager can meet.\<close>

datatype error = TypeError | AttributeError | KeyError | ValidationError | OSError
  | ValueError string | CalledProcessError int

text \<open>What \<open>json.loads\<close> returns.\<close>

datatype json = JNull | JBool bool | JNum int | JStr string | JArr "json list"
  | JObj "(string \<times> json) list"

text \<open>
  A checkout on disk: a file with its text (\<open>None\<close> when \<open>read_text\<close> cannot read or decode
  it), or a directory with its entries in the order the system lists them.
\<close>

datatype node = File "string option" | Dir "(string \<times> node) list"

fun child :: "node \<Rightarrow> string \<Rightarrow> node option" where
  "child (Dir es) n = map_of es n"
| "child (File t) n = None"

text \<open>\<open>path / "a/b"\<close> followed by \<open>exists()\<close>: the node at a relative path, if any.\<close>

fun lookup_path :: "node \<Rightarrow> string list \<Rightarrow> node option" where
  "lookup_path nd [] = Some nd"
| "lookup_path nd (n # ns) = (case child nd n of None \<Rightarrow> None | Some nd' \<Rightarrow> lookup_path nd' ns)"

fun read_text :: "node \<Rightarrow> error + string" where
  "read_text (File (Some t)) = Inr t"
| "read_text (File None) = Inl OSError"
| "read_text (Dir es) = Inl OSError"

text \<open>\<open>"/".join(parts)\<close>\<close>

fun join_path :: "string list \<Rightarrow> string" where
  "join_path [] = []"
| "join_path [p] = p"
| "join_path (p # ps) = p @ ''/'' @ join_path ps"

text \<open>\<open>s.split("/")\<close>\<close>

fun split_slash_aux :: "string \<Rightarrow> string \<Rightarrow> string list" where
  "split_slash_aux cur [] = [rev cur]"
| "split_slash_aux cur (c # s) =
     (if c = CHR ''/'' then rev cur # split_slash_aux [] s else split_slash_aux (c # cur) s)"

definition split_slash :: "string \<Rightarrow> string list" where
  "split_slash s = split_slash_aux [] s"

text \<open>
  \<open>PurePath.stem\<close>: the name without its last suffix; a name whose only dot is the first
  or the last character has no suffix.
\<close>

definition py_stem :: "string \<Rightarrow> string" where
  "py_stem nm =
     (if CHR ''.'' \<notin> set nm then nm
      else let i = length nm - length (takeWhile (\<lambda>c. c \<noteq> CHR ''.'') (rev nm)) - 1
           in if 0 < i \<and> i < length nm - 1 then take i nm else nm)"

text \<open>The pattern \<open>*.md\<close> of \<open>glob\<close> and \<open>rglob\<close> (case-sensitive, dot files included).\<close>

definition matches_md :: "string \<Rightarrow> bool" where
  "matches_md nm = py_endswith ''.md'' nm"

text \<open>
  \<open>base.rglob("*.md")\<close>, as (directories below \<open>base\<close>, name, node): the matching entries
  of a directory come first, then those of its sub-directories, in listing order.
  \<open>path.glob("*.md")\<close> is the first part alone.
\<close>

definition glob_md :: "node \<Rightarrow> (string list \<times> string \<times> node) list" where
  "glob_md nd = (case nd of File t \<Rightarrow> []
     | Dir es \<Rightarrow> map (\<lambda>e. ([], fst e, snd e)) (filter (\<lambda>e. matches_md (fst e)) es))"

fun rglob_md :: "node \<Rightarrow> (string list \<times> string \<times> node) list" where
  "rglob_md (File t) = []"
| "rglob_md (Dir es) =
     map (\<lambda>e. ([], fst e, snd e)) (filter (\<lambda>e. matches_md (fst e)) es)
     @ concat (map (\<lambda>e. map (\<lambda>(ds, n, nd). (fst e # ds, n, nd)) (rglob_md (snd e))) es)"

section \<open>Plugin data models (vibe/core/plugins/models.py)\<close>

record manifest_command =
  cmd_name :: string
  cmd_description :: string
  cmd_prompt_file :: string

record plugin_agent =
  agent_name :: string
  agent_description :: string
  agent_prompt_file :: string

text \<open>The \<open>author\<close> field is \<open>str | dict[str, Any]\<close>.\<close>

datatype author = AuthorStr string | AuthorDict "(string \<times> json) list"

record plugin_manifest =
  m_name :: string
  m_version :: string
  m_description :: string
  m_author :: author
  m_repository :: string
  m_commands :: "manifest_command list"
  m_agents :: "plugin_agent list"
  m_mcp_server :: "json option"
  m_prompts_dir :: string

section \<open>Manifest discovery (vibe/core/plugins/manager.py)\<close>

definition MANIFEST_PATHS :: "string list" where
  "MANIFEST_PATHS =
     [''.vibe-plugin/manifest.json'',
      ''.claude-plugin/marketplace.json'',
      ''.claude-plugin/plugin.json'',
      ''plugin.json'',
      ''manifest.json'']"

definition skip_files :: "string list" where
  "skip_files = [''readme.md'', ''claude.md'', ''agents.md'', ''vibe.md'']"

text \<open>\<open>str.splitlines()\<close> on the line boundaries below code point 256.\<close>

definition is_linebreak :: "char \<Rightarrow> bool" where
  "is_linebreak c = ((of_char c :: nat) \<in> {10, 11, 12, 13, 28, 29, 30, 133})"

fun splitlines_aux :: "string \<Rightarrow> string \<Rightarrow> string list" where
  "splitlines_aux cur [] = (if cur = [] then [] else [rev cur])"
| "splitlines_aux cur (c # s) =
     (if (of_char c :: nat) = 13
      then (case s of
              [] \<Rightarrow> [rev cur]
            | c' # s' \<Rightarrow> if (of_char c' :: nat) = 10 then rev cur # splitlines_aux [] s'
                         else rev cur # splitlines_aux [] (c' # s'))
      else if is_linebreak c then rev cur # splitlines_aux [] s
      else splitlines_aux (c # cur) s)"

definition py_splitlines :: "string \<Rightarrow> string list" where
  "py_splitlines s = splitlines_aux [] s"

text \<open>\<open>d.get(key, default)\<close> on a dictionary of strings.\<close>

definition dict_get :: "(string \<rightharpoonup> string) \<Rightarrow> string \<Rightarrow> string \<Rightarrow> string" where
  "dict_get d k dflt = (case d k of None \<Rightarrow> dflt | Some v \<Rightarrow> v)"

text \<open>One \<open>key: value\<close> line of the front matter; a line without a colon is passed over.\<close>

definition frontmatter_line :: "string \<Rightarrow> (string \<rightharpoonup> string) \<Rightarrow> (string \<rightharpoonup> string)" where
  "frontmatter_line line data =
     (if CHR '':'' \<notin> set line then data
      else let key = takeWhile (\<lambda>c. c \<noteq> CHR '':'') line;
               val = drop 1 (dropWhile (\<lambda>c. c \<noteq> CHR '':'') line)
           in data(py_strip key \<mapsto> py_strip val))"

definition read_frontmatter :: "node \<Rightarrow> (string \<rightharpoonup> string)" where
  "read_frontmatter nd =
     (case read_text nd of
        Inl e \<Rightarrow> Map.empty
      | Inr text \<Rightarrow>
          if \<not> py_startswith ''---'' text then Map.empty
          else let lines = drop 1 (py_splitlines text);
                   frontmatter_lines = takeWhile (\<lambda>line. py_strip line \<noteq> ''---'') lines
               in fold frontmatter_line frontmatter_lines Map.empty)"

text \<open>
  The loop body shared by the three command scans: skip the known non-content files, read
  the front matter, and build the command from a markdown file found below \<open>prefix\<close>.
\<close>

definition md_command :: "string list \<Rightarrow> string list \<times> string \<times> node \<Rightarrow> manifest_command" where
  "md_command prefix f =
     (case f of (ds, nm, nd) \<Rightarrow>
        let metadata = read_frontmatter nd
        in \<lparr>cmd_name = dict_get metadata ''name'' (py_stem nm),
            cmd_description = dict_get metadata ''description'' [],
            cmd_prompt_file = join_path (prefix @ ds @ [nm])\<rparr>)"

definition not_skipped :: "string list \<times> string \<times> node \<Rightarrow> bool" where
  "not_skipped f = (case f of (ds, nm, nd) \<Rightarrow> py_lower nm \<notin> set skip_files)"

definition md_commands :: "string list \<Rightarrow> (string list \<times> string \<times> node) list \<Rightarrow> manifest_command list" where
  "md_commands prefix fs = map (md_command prefix) (filter not_skipped fs)"

text \<open>\<open>base_dir.rglob("*.md")\<close> for a directory \<open>base\<close> of the checkout, nothing when it does not exist.\<close>

definition scan_dir :: "node \<Rightarrow> string \<Rightarrow> manifest_command list" where
  "scan_dir root base =
     (case child root base of None \<Rightarrow> [] | Some d \<Rightarrow> md_commands [base] (rglob_md d))"

definition md_agent :: "string list \<times> string \<times> node \<Rightarrow> plugin_agent" where
  "md_agent f =
     (case f of (ds, nm, nd) \<Rightarrow>
        let agent_name0 = join_path (ds @ [py_stem nm]);
            metadata = read_frontmatter nd
        in \<lparr>agent_name = dict_get metadata ''name'' agent_name0,
            agent_description = dict_get metadata ''description'' [],
            agent_prompt_file = join_path (''agents'' # ds @ [nm])\<rparr>)"

definition discover_agents :: "node \<Rightarrow> plugin_agent list" where
  "discover_agents root =
     (case child root ''agents'' of
        None \<Rightarrow> []
      | Some agents_dir \<Rightarrow> map md_agent (filter not_skipped (rglob_md agents_dir)))"

text \<open>The two de-duplication loops: the first entry of each (name, prompt file) pair, unnamed ones dropped.\<close>

fun unique_commands :: "(string \<times> string) list \<Rightarrow> manifest_command list \<Rightarrow> manifest_command list" where
  "unique_commands seen [] = []"
| "unique_commands seen (c # cs) =
     (let key = (cmd_name c, cmd_prompt_file c)
      in if cmd_name c = [] \<or> key \<in> set seen then unique_commands seen cs
         else c # unique_commands (key # seen) cs)"

fun unique_agents :: "(string \<times> string) list \<Rightarrow> plugin_agent list \<Rightarrow> plugin_agent list" where
  "unique_agents seen [] = []"
| "unique_agents seen (a # as) =
     (let key = (agent_name a, agent_prompt_file a)
      in if agent_name a = [] \<or> key \<in> set seen then unique_agents seen as
         else a # unique_agents (key # seen) as)"

definition infer_manifest :: "string \<Rightarrow> node \<Rightarrow> plugin_manifest option" where
  "infer_manifest path_name root =
     (let commands = scan_dir root ''commands'' @ scan_dir root ''prompts''
                       @ md_commands [] (glob_md root);
          agents = discover_agents root
      in if commands = [] then None
         else Some \<lparr>m_name = path_name, m_version = ''1.0.0'', m_description = [],
                m_author = AuthorStr [], m_repository = [],
                m_commands = unique_commands [] commands,
                m_agents = unique_agents [] agents,
                m_mcp_server = None, m_prompts_dir = ''prompts''\<rparr>)"

text \<open>
  Python on JSON values: truth value, \<open>d.get(key, default)\<close>, \<open>x.get\<close> on something that
  may not be a dictionary, \<open>for item in x\<close>, \<open>x[0]\<close>, and the validation of a \<open>str\<close> field.
\<close>

fun py_truthy :: "json \<Rightarrow> bool" where
  "py_truthy JNull = False"
| "py_truthy (JBool b) = b"
| "py_truthy (JNum n) = (n \<noteq> 0)"
| "py_truthy (JStr s) = (s \<noteq> [])"
| "py_truthy (JArr xs) = (xs \<noteq> [])"
| "py_truthy (JObj kvs) = (kvs \<noteq> [])"

definition json_get :: "(string \<times> json) list \<Rightarrow> string \<Rightarrow> json \<Rightarrow> json" where
  "json_get d k dflt = (case map_of d k of None \<Rightarrow> dflt | Some v \<Rightarrow> v)"

fun as_dict :: "json \<Rightarrow> error + (string \<times> json) list" where
  "as_dict (JObj d) = Inr d"
| "as_dict j = Inl AttributeError"

fun py_iter :: "json \<Rightarrow> error + json list" where
  "py_iter (JArr xs) = Inr xs"
| "py_iter (JObj kvs) = Inr (map (\<lambda>kv. JStr (fst kv)) kvs)"
| "py_iter (JStr s) = Inr (map (\<lambda>c. JStr [c]) s)"
| "py_iter j = Inl TypeError"

fun first_item :: "json \<Rightarrow> error + json" where
  "first_item (JArr (x # xs)) = Inr x"
| "first_item (JStr (c # s)) = Inr (JStr [c])"
| "first_item (JObj kvs) = Inl KeyError"
| "first_item j = Inl TypeError"

text \<open>The name, version, description and author that \<open>_convert_manifest\<close> reads, not yet validated.\<close>

definition manifest_header :: "(string \<times> json) list \<Rightarrow> string \<Rightarrow> error + json \<times> json \<times> json \<times> json" where
  "manifest_header data path_name =
     (case map_of data ''extensions'' of
        Some exts \<Rightarrow>
          (case (if py_truthy exts then first_item exts else Inr (JObj [])) of
             Inl e \<Rightarrow> Inl e
           | Inr ext0 \<Rightarrow>
               (case as_dict ext0 of
                  Inl e \<Rightarrow> Inl e
                | Inr ext \<Rightarrow>
                    (case as_dict (json_get ext ''developer'' (JObj [])) of
                       Inl e \<Rightarrow> Inl e
                     | Inr developer \<Rightarrow>
                         Inr (json_get ext ''name'' (JStr path_name),
                              json_get ext ''version'' (JStr ''1.0.0''),
                              json_get ext ''description'' (JStr []),
                              json_get developer ''name'' (JStr [])))))
      | None \<Rightarrow>
          Inr (json_get data ''name'' (JStr path_name),
               json_get data ''version'' (JStr ''1.0.0''),
               json_get data ''description'' (JStr []),
               (case json_get data ''author'' (JStr []) of
                  JObj author_data \<Rightarrow> json_get author_data ''name'' (JStr [])
                | author \<Rightarrow> author)))"

text \<open>\<open>PluginCommand(name=..., description=..., prompt_file=...)\<close> on one entry of \<open>commands\<close>.\<close>

definition convert_command :: "json \<Rightarrow> error + manifest_command" where
  "convert_command cmd =
     (case cmd of
        JObj d \<Rightarrow>
          (case (json_get d ''name'' (JStr []), json_get d ''description'' (JStr []),
                 json_get d ''prompt_file'' (json_get d ''prompt'' (JStr []))) of
             (JStr n, JStr ds, JStr p) \<Rightarrow>
               Inr \<lparr>cmd_name = n, cmd_description = ds, cmd_prompt_file = p\<rparr>
           | _ \<Rightarrow> Inl ValidationError)
      | _ \<Rightarrow> Inl AttributeError)"

fun convert_commands :: "json list \<Rightarrow> error + manifest_command list" where
  "convert_commands [] = Inr []"
| "convert_commands (c # cs) =
     (case convert_command c of
        Inl e \<Rightarrow> Inl e
      | Inr x \<Rightarrow> (case convert_commands cs of Inl e \<Rightarrow> Inl e | Inr xs \<Rightarrow> Inr (x # xs)))"

definition explicit_commands :: "(string \<times> json) list \<Rightarrow> error + manifest_command list" where
  "explicit_commands data =
     (case map_of data ''commands'' of
        None \<Rightarrow> Inr []
      | Some cs \<Rightarrow> (case py_iter cs of Inl e \<Rightarrow> Inl e | Inr items \<Rightarrow> convert_commands items))"

text \<open>An entry of \<open>agents\<close> that cannot be built, or has no name, is passed over.\<close>

definition convert_agent :: "json \<Rightarrow> plugin_agent list" where
  "convert_agent agent =
     (case agent of
        JObj d \<Rightarrow>
          (case (json_get d ''name'' (JStr []), json_get d ''description'' (JStr []),
                 json_get d ''prompt_file'' (json_get d ''prompt'' (JStr []))) of
             (JStr n, JStr ds, JStr p) \<Rightarrow>
               if n \<noteq> [] then [\<lparr>agent_name = n, agent_description = ds, agent_prompt_file = p\<rparr>]
               else []
           | _ \<Rightarrow> [])
      | _ \<Rightarrow> [])"

definition explicit_agents :: "(string \<times> json) list \<Rightarrow> error + plugin_agent list" where
  "explicit_agents data =
     (case map_of data ''agents'' of
        None \<Rightarrow> Inr []
      | Some as \<Rightarrow> (case py_iter as of Inl e \<Rightarrow> Inl e | Inr items \<Rightarrow> Inr (concat (map convert_agent items))))"

text \<open>The final \<open>PluginManifest(...)\<close> call with its field validation.\<close>

definition validate_manifest ::
  "json \<Rightarrow> json \<Rightarrow> json \<Rightarrow> json \<Rightarrow> json \<Rightarrow> manifest_command list \<Rightarrow> plugin_agent list
     \<Rightarrow> error + plugin_manifest" where
  "validate_manifest nm version descr auth repository cmds agents =
     (case (nm, version, descr, repository) of
        (JStr n, JStr v, JStr d, JStr r) \<Rightarrow>
          (case (case auth of JStr a \<Rightarrow> Some (AuthorStr a) | JObj a \<Rightarrow> Some (AuthorDict a)
                 | _ \<Rightarrow> None) of
             None \<Rightarrow> Inl ValidationError
           | Some a \<Rightarrow>
               Inr \<lparr>m_name = n, m_version = v, m_description = d, m_author = a, m_repository = r,
                    m_commands = cmds, m_agents = agents, m_mcp_server = None,
                    m_prompts_dir = ''prompts''\<rparr>)
      | _ \<Rightarrow> Inl ValidationError)"

text \<open>\<open>p in s\<close> on two strings: \<open>p\<close> occurs in \<open>s\<close>.\<close>

definition is_substring :: "string \<Rightarrow> string \<Rightarrow> bool" where
  "is_substring p s = list_ex (\<lambda>i. take (length p) (drop i s) = p) [0..<Suc (length s)]"

text \<open>
  What \<open>_convert_manifest\<close> raises on JSON that is not a dictionary: the test
  \<open>"extensions" in data\<close> is true for a list with that element and for a string with that
  substring, and then \<open>data["extensions"]\<close> is a \<open>TypeError\<close>; when it is false,
  \<open>data.get\<close> is an \<open>AttributeError\<close>; on a number, a truth value or \<open>null\<close> the test
  itself is a \<open>TypeError\<close>.
\<close>

fun not_a_dict :: "json \<Rightarrow> error" where
  "not_a_dict (JArr xs) = (if JStr ''extensions'' \<in> set xs then TypeError else AttributeError)"
| "not_a_dict (JStr s) = (if is_substring ''extensions'' s then TypeError else AttributeError)"
| "not_a_dict j = TypeError"

text \<open>\<open>_convert_manifest\<close>.\<close>

definition convert_manifest :: "json \<Rightarrow> string \<Rightarrow> node \<Rightarrow> error + plugin_manifest" where
  "convert_manifest data path_name root =
     (case data of
        JObj d \<Rightarrow>
          (case manifest_header d path_name of
             Inl e \<Rightarrow> Inl e
           | Inr (nm, version, descr, auth) \<Rightarrow>
               (case explicit_commands d of
                  Inl e \<Rightarrow> Inl e
                | Inr cmds \<Rightarrow>
                    (case explicit_agents d of
                       Inl e \<Rightarrow> Inl e
                     | Inr ags \<Rightarrow>
                         let agents = ags @ discover_agents root;
                             commands = cmds @ scan_dir root ''commands''
                         in validate_manifest nm version descr auth
                              (json_get d ''repository'' (JStr []))
                              (unique_commands [] commands) (unique_agents [] agents))))
      | _ \<Rightarrow> Inl (not_a_dict data))"

text \<open>
  The body of the loop of \<open>_parse_manifest\<close> for one path: the manifest when the file
  exists, is read, is JSON (\<open>loads\<close> stands for \<open>json.loads\<close>) and converts; any exception on
  the way is logged and the loop goes on.
\<close>

definition try_manifest :: "(string \<Rightarrow> json option) \<Rightarrow> string \<Rightarrow> node \<Rightarrow> string \<Rightarrow> plugin_manifest option" where
  "try_manifest loads path_name root manifest_path =
     (case lookup_path root (split_slash manifest_path) of
        None \<Rightarrow> None
      | Some full_path \<Rightarrow>
          (case read_text full_path of
             Inl e \<Rightarrow> None
           | Inr text \<Rightarrow>
               (case loads text of
                  None \<Rightarrow> None
                | Some data \<Rightarrow>
                    (case convert_manifest data path_name root of
                       Inl e \<Rightarrow> None
                     | Inr m \<Rightarrow> Some m))))"

fun parse_manifest_from ::
  "(string \<Rightarrow> json option) \<Rightarrow> string \<Rightarrow> node \<Rightarrow> string list \<Rightarrow> plugin_manifest option" where
  "parse_manifest_from loads path_name root [] = infer_manifest path_name root"
| "parse_manifest_from loads path_name root (p # ps) =
     (case try_manifest loads path_name root p of
        Some m \<Rightarrow> Some m
      | None \<Rightarrow> parse_manifest_from loads path_name root ps)"

definition parse_manifest :: "(string \<Rightarrow> json option) \<Rightarrow> string \<Rightarrow> node \<Rightarrow> plugin_manifest option" where
  "parse_manifest loads path_name root = parse_manifest_from loads path_name root MANIFEST_PATHS"

text \<open>A checkout that holds one agent and no command.\<close>

definition agents_only_checkout :: node where
  "agents_only_checkout = Dir [(''agents'', Dir [(''reviewer.md'', File (Some ''Review the change.''))])]"

text \<open>A checkout with a note and a read-me in its root.\<close>

definition root_notes_checkout :: "(string \<times> node) list" where
  "root_notes_checkout =
     [(''README.md'', File (Some ''About this plugin.'')),
      (''triage.md'', File (Some ''Sort the open issues.''))]"

section \<open>The plugin store (vibe/core/plugins/manager.py)\<close>

record installed_plugin =
  ip_name :: string
  ip_version :: string
  ip_description :: string
  ip_repository :: string
  ip_install_path :: string
  ip_enabled :: bool
  ip_manifest :: "plugin_manifest option"

record marketplace_plugin =
  mp_name :: string
  mp_version :: string
  mp_description :: string
  mp_author :: string
  mp_repository :: string

record marketplace =
  mk_name :: string
  mk_version :: string
  mk_url :: string
  mk_plugins :: "marketplace_plugin list"

text \<open>The git commands that have been run, with their arguments.\<close>

datatype git_call = GitClone string string | GitPull string

text \<open>
  The manager with what it owns outside its own memory: the two dictionaries in insertion
  order, what lies on disk at each path, the document last written to the configuration file
  (\<open>None\<close> while there is no file), the prompt files under the commands directory, and the
  git commands run so far.
\<close>

record plugin_manager =
  plugins_dir :: string
  installed :: "(string \<times> installed_plugin) list"
  marketplaces :: "(string \<times> marketplace) list"
  disk :: "string \<rightharpoonup> node"
  config_file :: "(installed_plugin list \<times> marketplace list) option"
  command_files :: "string \<rightharpoonup> string"
  git_calls :: "git_call list"

text \<open>
  What the manager asks of the outside: \<open>json.loads\<close>, the search of a GitHub organisation
  (\<open>_resolve_org_plugin\<close>), the two git subprocesses, each giving its exit status and what
  lies at the path afterwards, and what lies at \<open>install_path / p\<close> for a relative path
  \<open>p\<close> that is absolute or has a \<open>..\<close> component, and so is not settled by the checkout
  alone.
\<close>

record world =
  json_loads :: "string \<Rightarrow> json option"
  resolve_org_plugin :: "string \<Rightarrow> string option"
  git_clone :: "string \<Rightarrow> string \<Rightarrow> int \<times> node option"
  git_pull :: "string \<Rightarrow> node option \<Rightarrow> int \<times> node option"
  path_outside :: "string \<Rightarrow> string \<Rightarrow> node option"

text \<open>\<open>d[k] = v\<close> and \<open>del d[k]\<close> on a dictionary kept in insertion order.\<close>

fun dict_set :: "string \<Rightarrow> 'v \<Rightarrow> (string \<times> 'v) list \<Rightarrow> (string \<times> 'v) list" where
  "dict_set k v [] = [(k, v)]"
| "dict_set k v (kv # d) = (if fst kv = k then (k, v) # d else kv # dict_set k v d)"

definition dict_del :: "string \<Rightarrow> (string \<times> 'v) list \<Rightarrow> (string \<times> 'v) list" where
  "dict_del k d = filter (\<lambda>kv. fst kv \<noteq> k) d"

definition save_config :: "plugin_manager \<Rightarrow> plugin_manager" where
  "save_config st = st\<lparr>config_file := Some (map snd (installed st), map snd (marketplaces st))\<rparr>"

definition find_in_marketplaces :: "plugin_manager \<Rightarrow> string \<Rightarrow> marketplace_plugin option" where
  "find_in_marketplaces st nm =
     find (\<lambda>plugin. mp_name plugin = nm) (concat (map (\<lambda>kv. mk_plugins (snd kv)) (marketplaces st)))"

text \<open>
  The first part of \<open>install\<close>: from the source string to the \<open>owner/repo\<close> coordinate, or the
  \<open>ValueError\<close> for a bare name that nothing resolves.
\<close>

definition resolve_source :: "world \<Rightarrow> plugin_manager \<Rightarrow> string \<Rightarrow> string option \<Rightarrow> error + string" where
  "resolve_source w st source from_marketplace =
     (let source1 =
            (if (case from_marketplace of None \<Rightarrow> False | Some u \<Rightarrow> u \<noteq> []) \<or> CHR ''/'' \<notin> set source
             then (case find_in_marketplaces st source of
                     Some plugin_info \<Rightarrow> mp_repository plugin_info
                   | None \<Rightarrow> source)
             else source);
          repo = normalize_repo source1
      in if CHR ''/'' \<notin> set repo
         then (case resolve_org_plugin w repo of
                 Some resolved_repo \<Rightarrow>
                   if resolved_repo \<noteq> [] then Inr resolved_repo else Inl (ValueError source1)
               | None \<Rightarrow> Inl (ValueError source1))
         else Inr repo)"

text \<open>\<open>repo.split("/")[-1]\<close>: what follows the last slash.\<close>

definition plugin_name_of :: "string \<Rightarrow> string" where
  "plugin_name_of repo = rev (takeWhile (\<lambda>c. c \<noteq> CHR ''/'') (rev repo))"

definition install_path_of :: "plugin_manager \<Rightarrow> string \<Rightarrow> string" where
  "install_path_of st repo = plugins_dir st @ ''/'' @ plugin_name_of repo"

definition clone_url :: "string \<Rightarrow> string" where
  "clone_url repo = ''https://github.com/'' @ repo @ ''.git''"

text \<open>
  The second part: \<open>git pull --ff-only\<close> in an install path that exists, \<open>git clone --depth 1\<close>
  otherwise; \<open>check=True\<close> turns a non-zero exit status into \<open>CalledProcessError\<close>.
\<close>

definition checkout :: "world \<Rightarrow> plugin_manager \<Rightarrow> string \<Rightarrow> (error + unit) \<times> plugin_manager" where
  "checkout w st repo =
     (let install_path = install_path_of st repo
      in if disk st install_path \<noteq> None
         then (case git_pull w install_path (disk st install_path) of
                 (rc, after) \<Rightarrow>
                   let st' = st\<lparr>disk := (disk st)(install_path := after),
                                git_calls := git_calls st @ [GitPull install_path]\<rparr>
                   in if rc \<noteq> 0 then (Inl (CalledProcessError rc), st') else (Inr (), st'))
         else (case git_clone w (clone_url repo) install_path of
                 (rc, after) \<Rightarrow>
                   let st' = st\<lparr>disk := (disk st)(install_path := after),
                                git_calls := git_calls st @ [GitClone (clone_url repo) install_path]\<rparr>
                   in if rc \<noteq> 0 then (Inl (CalledProcessError rc), st') else (Inr (), st')))"

text \<open>
  \<open>install_path / p\<close> followed by \<open>exists()\<close>. A path made of plain components is looked
  up in the checkout, empty and \<open>.\<close> components dropped as \<open>pathlib\<close> drops them; an absolute
  path replaces the install path, and a \<open>..\<close> component climbs, so both are left to the
  world.
\<close>

definition path_parts :: "string \<Rightarrow> string list" where
  "path_parts p = filter (\<lambda>c. c \<noteq> [] \<and> c \<noteq> ''.'') (split_slash p)"

definition leaves_checkout :: "string \<Rightarrow> bool" where
  "leaves_checkout p = (py_startswith ''/'' p \<or> ''..'' \<in> set (split_slash p))"

definition locate :: "world \<Rightarrow> string \<Rightarrow> node \<Rightarrow> string \<Rightarrow> node option" where
  "locate w install_path root p =
     (if leaves_checkout p then path_outside w install_path p else lookup_path root (path_parts p))"

text \<open>\<open>a / b\<close> on relative path strings: an absolute \<open>b\<close> replaces \<open>a\<close>.\<close>

definition path_join :: "string \<Rightarrow> string \<Rightarrow> string" where
  "path_join a b = (if py_startswith ''/'' b \<or> a = [] then b else a @ ''/'' @ b)"

text \<open>\<open>get_command_prompt\<close>\<close>

definition get_command_prompt ::
  "world \<Rightarrow> string \<Rightarrow> node \<Rightarrow> plugin_manifest option \<Rightarrow> manifest_command \<Rightarrow> error + string option" where
  "get_command_prompt w install_path root manifest command =
     (if cmd_prompt_file command = [] then Inr None
      else let p1 = locate w install_path root (cmd_prompt_file command);
               prompt_path =
                 (case (p1, manifest) of
                    (None, Some m) \<Rightarrow>
                      locate w install_path root (path_join (m_prompts_dir m) (cmd_prompt_file command))
                  | _ \<Rightarrow> p1)
           in case prompt_path of
                None \<Rightarrow> Inr None
              | Some nd \<Rightarrow> (case read_text nd of Inl e \<Rightarrow> Inl e | Inr t \<Rightarrow> Inr (Some t)))"

text \<open>
  The loop of \<open>_install_commands\<close>; an exception leaves the files written so far. The
  commands directory has no sub-directories, so \<open>write_text\<close> raises on a file name with a
  slash in it.
\<close>

fun install_commands ::
  "world \<Rightarrow> node \<Rightarrow> installed_plugin \<Rightarrow> manifest_command list \<Rightarrow> plugin_manager
     \<Rightarrow> (error + unit) \<times> plugin_manager" where
  "install_commands w root plugin [] st = (Inr (), st)"
| "install_commands w root plugin (cmd # cmds) st =
     (case get_command_prompt w (ip_install_path plugin) root (ip_manifest plugin) cmd of
        Inl e \<Rightarrow> (Inl e, st)
      | Inr None \<Rightarrow> install_commands w root plugin cmds st
      | Inr (Some prompt_content) \<Rightarrow>
          if prompt_content \<noteq> []
          then (if CHR ''/'' \<in> set (ip_name plugin @ ''_'' @ cmd_name cmd @ ''.md'')
                then (Inl OSError, st)
                else install_commands w root plugin cmds
                       (st\<lparr>command_files := (command_files st)
                              (ip_name plugin @ ''_'' @ cmd_name cmd @ ''.md'' \<mapsto> prompt_content)\<rparr>))
          else install_commands w root plugin cmds st)"

definition install ::
  "world \<Rightarrow> string \<Rightarrow> string option \<Rightarrow> plugin_manager \<Rightarrow> (error + installed_plugin) \<times> plugin_manager" where
  "install w source from_marketplace st =
     (case resolve_source w st source from_marketplace of
        Inl e \<Rightarrow> (Inl e, st)
      | Inr repo \<Rightarrow>
          (case checkout w st repo of
             (Inl e, st1) \<Rightarrow> (Inl e, st1)
           | (Inr u, st1) \<Rightarrow>
               let plugin_name = plugin_name_of repo;
                   install_path = install_path_of st repo;
                   root = (case disk st1 install_path of Some nd \<Rightarrow> nd | None \<Rightarrow> Dir []);
                   manifest = parse_manifest (json_loads w) plugin_name root;
                   plugin = \<lparr>ip_name = (case manifest of Some m \<Rightarrow> m_name m | None \<Rightarrow> plugin_name),
                             ip_version = (case manifest of Some m \<Rightarrow> m_version m | None \<Rightarrow> ''1.0.0''),
                             ip_description = (case manifest of Some m \<Rightarrow> m_description m | None \<Rightarrow> []),
                             ip_repository = repo,
                             ip_install_path = install_path,
                             ip_enabled = True,
                             ip_manifest = manifest\<rparr>;
                   st2 = save_config (st1\<lparr>installed := dict_set (ip_name plugin) plugin (installed st1)\<rparr>)
               in (case install_commands w root plugin
                          (case manifest of Some m \<Rightarrow> m_commands m | None \<Rightarrow> []) st2 of
                     (Inl e, st3) \<Rightarrow> (Inl e, st3)
                   | (Inr u', st3) \<Rightarrow> (Inr plugin, st3))))"

definition uninstall :: "plugin_manager \<Rightarrow> string \<Rightarrow> bool \<times> plugin_manager" where
  "uninstall st nm =
     (case map_of (installed st) nm of
        None \<Rightarrow> (False, st)
      | Some plugin \<Rightarrow>
          (True, save_config (st\<lparr>disk := (disk st)(ip_install_path plugin := None),
                                   installed := dict_del nm (installed st)\<rparr>)))"

text \<open>A store with one installed plugin, its checkout on disk and its configuration file written.\<close>

definition demo_plugin :: installed_plugin where
  "demo_plugin = \<lparr>ip_name = ''demo'', ip_version = ''1.0.0'', ip_description = [],
      ip_repository = ''acme/demo'', ip_install_path = ''home/plugins/demo'', ip_enabled = True,
      ip_manifest = None\<rparr>"

definition demo_store :: plugin_manager where
  "demo_store = \<lparr>plugins_dir = ''home/plugins'', installed = [(''demo'', demo_plugin)],
      marketplaces = [], disk = [''home/plugins/demo'' \<mapsto> Dir []],
      config_file = Some ([demo_plugin], []), command_files = Map.empty, git_calls = []\<rparr>"

text \<open>A world where git always fails, and one where it works.\<close>

definition offline_world :: world where
  "offline_world = \<lparr>json_loads = (\<lambda>t. None), resolve_org_plugin = (\<lambda>org. None),
      git_clone = (\<lambda>url path. (128, None)), git_pull = (\<lambda>path before. (1, before)),
      path_outside = (\<lambda>path p. None)\<rparr>"

definition online_world :: world where
  "online_world = \<lparr>json_loads = (\<lambda>t. None), resolve_org_plugin = (\<lambda>org. None),
      git_clone = (\<lambda>url path. (0, Some (Dir [(''note.md'', File (Some ''Take a note.''))]))),
      git_pull = (\<lambda>path before. (0, before)), path_outside = (\<lambda>path p. None)\<rparr>"

text \<open>The name under which \<open>install\<close> files a checkout: the manifest's name, or the directory name.\<close>

definition entry_name :: "world \<Rightarrow> string \<Rightarrow> node option \<Rightarrow> string" where
  "entry_name w repo at_path =
     (case parse_manifest (json_loads w) (plugin_name_of repo)
             (case at_path of Some nd \<Rightarrow> nd | None \<Rightarrow> Dir []) of
        Some m \<Rightarrow> m_name m
      | None \<Rightarrow> plugin_name_of repo)"

text \<open>A plugin command whose name has a blank in it.\<close>

definition code_review_cmd :: plugin_command where
  "code_review_cmd = \<lparr>name = ''code review'', plugin_name = ''tools'',
      pc_description = ''Review the code'', prompt_file = ''commands/review.md''\<rparr>"

text \<open>A checkout whose only file has front matter with a blank name.\<close>

definition blank_name_text :: string where
  "blank_name_text = ''---'' @ [CHR 0x0A] @ ''name:'' @ [CHR 0x0A] @ ''---'' @ [CHR 0x0A] @ ''Do x.''"

definition blank_name_checkout :: "(string \<times> node) list" where
  "blank_name_checkout = [(''x.md'', File (Some blank_name_text))]"





text \<open>
  A world where the clone brings a \<open>plugin.json\<close> that names the plugin \<open>one\<close> and the pull
  brings one that names it \<open>two\<close>; the texts are \<open>{"name": "one"}\<close> and \<open>{"name": "two"}\<close>.
\<close>

definition one_json_text :: string where
  "one_json_text = ''{'' @ [CHR 0x22] @ ''name'' @ [CHR 0x22] @ '': '' @ [CHR 0x22] @ ''one''
     @ [CHR 0x22] @ ''}''"

definition two_json_text :: string where
  "two_json_text = ''{'' @ [CHR 0x22] @ ''name'' @ [CHR 0x22] @ '': '' @ [CHR 0x22] @ ''two''
     @ [CHR 0x22] @ ''}''"

definition loads_names :: "string \<Rightarrow> json option" where
  "loads_names body =
     (if body = one_json_text then Some (JObj [(''name'', JStr ''one'')])
      else if body = two_json_text then Some (JObj [(''name'', JStr ''two'')])
      else None)"

definition rename_world :: world where
  "rename_world = \<lparr>json_loads = loads_names, resolve_org_plugin = (\<lambda>org. None),
      git_clone = (\<lambda>url path. (0, Some (Dir [(''plugin.json'', File (Some one_json_text))]))),
      git_pull = (\<lambda>path before. (0, Some (Dir [(''plugin.json'', File (Some two_json_text))]))),
      path_outside = (\<lambda>path p. None)\<rparr>"

section \<open>Properties\<close>

subsection \<open>Characters and strings\<close>

lemma low5_bound:
  "(of_bool b0 + (2 * of_bool b1 + (4 * of_bool b2 + (8 * of_bool b3 + 16 * of_bool b4))) :: nat) \<le> 31"
  by (simp add: of_bool_def)

lemma of_char_Char_nat:
  "(of_char (Char b0 b1 b2 b3 b4 b5 b6 b7) :: nat) =
     (of_bool b0 + (2 * of_bool b1 + (4 * of_bool b2 + (8 * of_bool b3 + 16 * of_bool b4))))
       + 32 * of_bool b5 + 64 * of_bool b6 + 128 * of_bool b7"
  by simp

text \<open>Lower-casing a character written out in bits sets bit 5; this is the form \<open>simp\<close> evaluates.\<close>

lemma py_lower_char_Char:
  "py_lower_char (Char b0 b1 b2 b3 b4 b5 b6 b7) =
     (let n = (of_char (Char b0 b1 b2 b3 b4 b5 b6 b7) :: nat)
      in if (65 \<le> n \<and> n \<le> 90) \<or> (192 \<le> n \<and> n \<le> 222 \<and> n \<noteq> 215)
         then Char b0 b1 b2 b3 b4 True b6 b7 else Char b0 b1 b2 b3 b4 b5 b6 b7)"
proof -
  let ?c = "Char b0 b1 b2 b3 b4 b5 b6 b7"
  let ?n = "of_char ?c :: nat"
  let ?lo = "(of_bool b0 + (2 * of_bool b1 + (4 * of_bool b2 + (8 * of_bool b3 + 16 * of_bool b4)))) :: nat"
  have n: "?n = ?lo + 32 * of_bool b5 + 64 * of_bool b6 + 128 * of_bool b7"
    by (rule of_char_Char_nat)
  have lo: "?lo \<le> 31" by (rule low5_bound)
  show ?thesis
  proof (cases "(65 \<le> ?n \<and> ?n \<le> 90) \<or> (192 \<le> ?n \<and> ?n \<le> 222 \<and> ?n \<noteq> 215)")
    case False
    then show ?thesis by (simp only: py_lower_char_def Let_def if_False)
  next
    case True
    have b5: "\<not> b5"
    proof
      assume "b5"
      with True n lo show False by (cases b6; cases b7; simp)
    qed
    have "?n + 32 = of_char (Char b0 b1 b2 b3 b4 True b6 b7)"
      using b5 by simp
    then have "char_of (?n + 32) = Char b0 b1 b2 b3 b4 True b6 b7"
      by (simp only: char_of_char)
    with True show ?thesis by (simp only: py_lower_char_def Let_def if_True)
  qed
qed

lemmas str_defs = py_lower_def py_lower_char_Char py_isspace_def py_strip_def py_lstrip_def
  py_rstrip_def py_split_max1_def base_cmd_def

lemma py_lower_char_idem: "py_lower_char (py_lower_char c) = py_lower_char c"
  unfolding py_lower_char_def Let_def by (auto simp: of_char_of)

lemma py_isspace_lower: "py_isspace (py_lower_char c) = py_isspace c"
  unfolding py_lower_char_def py_isspace_def Let_def by (auto simp: of_char_of)

subsection \<open>The command registry\<close>

lemma fold_dict_pop: "fold dict_pop ex d = filter (\<lambda>kv. fst kv \<notin> set ex) d"
proof (induction ex arbitrary: d)
  case Nil
  show ?case by simp
next
  case (Cons x ex)
  have "fold dict_pop (x # ex) d = filter (\<lambda>kv. fst kv \<notin> set ex) (filter (\<lambda>kv. fst kv \<noteq> x) d)"
    by (simp add: Cons.IH dict_pop_def)
  also have "\<dots> = filter (\<lambda>kv. fst kv \<notin> set (x # ex)) d"
    unfolding filter_filter by (rule filter_cong[OF refl]) auto
  finally show ?case .
qed

lemma fold_alias_upd:
  "fold (\<lambda>alias m'. m'(alias \<mapsto> n)) als m a = (if a \<in> set als then Some n else m a)"
  by (induction als arbitrary: m) auto

lemma add_aliases_apply:
  "add_aliases kv m a = (if a \<in> set (aliases (snd kv)) then Some (fst kv) else m a)"
  by (simp add: add_aliases_def fold_alias_upd)

lemma fold_add_aliases_unique:
  assumes "kv \<in> set cmds" and "a \<in> set (aliases (snd kv))"
    and "\<forall>kv' \<in> set cmds. a \<in> set (aliases (snd kv')) \<longrightarrow> fst kv' = fst kv"
  shows "fold add_aliases cmds m a = Some (fst kv)"
  using assms
proof (induction cmds rule: rev_induct)
  case Nil
  then show ?case by simp
next
  case (snoc x xs)
  have step: "fold add_aliases (xs @ [x]) m a =
      (if a \<in> set (aliases (snd x)) then Some (fst x) else fold add_aliases xs m a)"
    by (simp add: add_aliases_apply)
  show ?case
  proof (cases "a \<in> set (aliases (snd x))")
    case True
    from snoc.prems(3) True have "fst x = fst kv" by simp
    with step True show ?thesis by simp
  next
    case False
    with snoc.prems(1,2) have in_xs: "kv \<in> set xs" by auto
    from snoc.prems(3)
    have uniq: "\<forall>kv' \<in> set xs. a \<in> set (aliases (snd kv')) \<longrightarrow> fst kv' = fst kv"
      by simp
    have "fold add_aliases xs m a = Some (fst kv)"
      by (rule snoc.IH[OF in_xs snoc.prems(2) uniq])
    with step False show ?thesis by simp
  qed
qed

lemma map_of_filter_key:
  "map_of (filter (\<lambda>kv. P (fst kv)) xs) k = (if P k then map_of xs k else None)"
  by (induction xs) auto

lemma commands_CommandRegistry:
  "commands (CommandRegistry ex) = filter (\<lambda>kv. fst kv \<notin> set ex) builtin_commands"
  by (simp add: CommandRegistry_def fold_dict_pop Let_def)

lemma alias_map_CommandRegistry:
  "alias_map (CommandRegistry ex) = build_alias_map (filter (\<lambda>kv. fst kv \<notin> set ex) builtin_commands)"
  by (simp add: CommandRegistry_def fold_dict_pop Let_def)

lemma register_alias_map [simp]: "alias_map (register_plugin_command r c) = alias_map r"
  by (simp add: register_plugin_command_def Let_def)

lemma register_commands [simp]: "commands (register_plugin_command r c) = commands r"
  by (simp add: register_plugin_command_def Let_def)

lemma fold_register_alias_map [simp]:
  "alias_map (fold (\<lambda>c r'. register_plugin_command r' c) S r) = alias_map r"
  by (induction S arbitrary: r) auto

lemma fold_register_commands [simp]:
  "commands (fold (\<lambda>c r'. register_plugin_command r' c) S r) = commands r"
  by (induction S arbitrary: r) auto

lemma full_alias_colon: "CHR '':'' \<in> set (full_alias c)"
  by (simp add: full_alias_def)

lemma full_neq_own_short: "full_alias c \<noteq> short_alias c"
proof
  assume "full_alias c = short_alias c"
  then have "length (full_alias c) = length (short_alias c)" by simp
  then show False by (simp add: full_alias_def short_alias_def)
qed

lemma register_full: "plugin_commands (register_plugin_command r c) (full_alias c) = Some c"
  using full_neq_own_short[of c] by (auto simp: register_plugin_command_def Let_def)

lemma register_short:
  "plugin_commands (register_plugin_command r c) (short_alias c) =
     (if alias_map r (short_alias c) = None \<and> plugin_commands r (short_alias c) = None
      then Some c else plugin_commands r (short_alias c))"
  using full_neq_own_short[of c] by (auto simp: register_plugin_command_def Let_def)

lemma register_other:
  "a \<noteq> full_alias c \<Longrightarrow> a \<noteq> short_alias c \<Longrightarrow>
   plugin_commands (register_plugin_command r c) a = plugin_commands r a"
  by (auto simp: register_plugin_command_def Let_def)

lemma dom_register:
  "dom (plugin_commands (register_plugin_command r c)) =
     dom (plugin_commands r) \<union> {full_alias c} \<union>
       (if alias_map r (short_alias c) = None then {short_alias c} else {})"
  by (auto simp: register_plugin_command_def Let_def split: if_splits)

lemma dom_fold_register:
  "dom (plugin_commands (fold (\<lambda>c r'. register_plugin_command r' c) S r)) =
     dom (plugin_commands r) \<union> full_alias ` set S \<union>
       {short_alias c | c. c \<in> set S \<and> alias_map r (short_alias c) = None}"
proof (induction S arbitrary: r)
  case Nil
  then show ?case by simp
next
  case (Cons c S)
  let ?r = "register_plugin_command r c"
  have "dom (plugin_commands (fold (\<lambda>c r'. register_plugin_command r' c) (c # S) r)) =
        dom (plugin_commands ?r) \<union> full_alias ` set S \<union>
          {short_alias c' | c'. c' \<in> set S \<and> alias_map r (short_alias c') = None}"
    by (simp add: Cons.IH)
  also have "\<dots> = dom (plugin_commands r) \<union> full_alias ` set (c # S) \<union>
          {short_alias c' | c'. c' \<in> set (c # S) \<and> alias_map r (short_alias c') = None}"
  proof (cases "alias_map r (short_alias c) = None")
    case True
    then show ?thesis unfolding dom_register by (simp only: if_True) (force simp del: dom_eq_empty_conv)
  next
    case False
    then show ?thesis unfolding dom_register by (simp only: if_False) (force simp del: dom_eq_empty_conv)
  qed
  finally show ?case .
qed

lemma set_plugin_commands_fold:
  "set_plugin_commands r S = fold (\<lambda>c r'. register_plugin_command r' c) S (r\<lparr>plugin_commands := Map.empty\<rparr>)"
  by (simp add: set_plugin_commands_def)

lemma dom_set_plugin_commands:
  "dom (plugin_commands (set_plugin_commands r S)) =
     full_alias ` set S \<union> {short_alias c | c. c \<in> set S \<and> alias_map r (short_alias c) = None}"
  by (simp add: set_plugin_commands_def dom_fold_register)

lemma status_in_builtin:
  "(''status'', mk_command [''/status'', ''/stats''] ''Display agent statistics'' ''_show_status'')
     \<in> set builtin_commands"
  by (simp add: builtin_commands_def)

lemma status_alias_unique:
  "\<forall>kv' \<in> set builtin_commands. ''/status'' \<in> set (aliases (snd kv')) \<longrightarrow> fst kv' = ''status''"
  by (simp add: builtin_commands_def mk_command_def)

lemma status_alias:
  assumes "''status'' \<notin> set ex"
  shows "alias_map (CommandRegistry ex) ''/status'' = Some ''status''"
proof -
  let ?kv = "(''status'', mk_command [''/status'', ''/stats''] ''Display agent statistics'' ''_show_status'')"
  let ?cmds = "filter (\<lambda>kv. fst kv \<notin> set ex) builtin_commands"
  have 1: "?kv \<in> set ?cmds" using assms status_in_builtin by simp
  have 2: "''/status'' \<in> set (aliases (snd ?kv))" by (simp add: mk_command_def)
  have 4: "\<forall>kv' \<in> set ?cmds. ''/status'' \<in> set (aliases (snd kv')) \<longrightarrow> fst kv' = fst ?kv"
    using status_alias_unique by simp
  have "fold add_aliases ?cmds Map.empty ''/status'' = Some (fst ?kv)"
    by (rule fold_add_aliases_unique[OF 1 2 4])
  then show ?thesis
    by (simp add: alias_map_CommandRegistry build_alias_map_def)
qed

lemma map_of_builtin_status:
  "map_of builtin_commands ''status'' =
     Some (mk_command [''/status'', ''/stats''] ''Display agent statistics'' ''_show_status'')"
  by (simp add: builtin_commands_def)

lemma status_command:
  assumes "''status'' \<notin> set ex"
  shows "map_of (commands (CommandRegistry ex)) ''status'' =
           Some (mk_command [''/status'', ''/stats''] ''Display agent statistics'' ''_show_status'')"
  using assms map_of_filter_key[of "\<lambda>k. k \<notin> set ex" builtin_commands "''status''"]
  by (simp add: commands_CommandRegistry map_of_builtin_status)

lemma base_cmd_status: "base_cmd (py_split_max1 (py_strip (py_lower ''/status''))) = ''/status''"
  by (simp add: str_defs)

lemma find_command_status:
  assumes "alias_map r ''/status'' = Some ''status''"
  shows "find_command r ''/status'' = map_of (commands r) ''status''"
  using assms by (simp add: find_command_def base_cmd_status)

lemma status_not_full: "full_alias c \<noteq> ''/status''"
proof
  assume "full_alias c = ''/status''"
  then have "CHR '':'' \<in> set ''/status''" using full_alias_colon[of c] by simp
  then show False by simp
qed

lemma status_never_plugin_alias:
  assumes "alias_map r ''/status'' = Some ''status''"
  shows "''/status'' \<notin> dom (plugin_commands (set_plugin_commands r S))"
proof
  assume "''/status'' \<in> dom (plugin_commands (set_plugin_commands r S))"
  then consider c where "c \<in> set S" "''/status'' = full_alias c"
    | c where "c \<in> set S" "''/status'' = short_alias c" "alias_map r (short_alias c) = None"
    unfolding dom_set_plugin_commands by blast
  then show False
  proof cases
    case 1
    then show False using status_not_full[of c] by simp
  next
    case 2
    then show False using assms by simp
  qed
qed

lemma set_plugin_commands_snoc:
  "register_plugin_command (set_plugin_commands r S) c = set_plugin_commands r (S @ [c])"
  by (simp add: set_plugin_commands_def)

lemma set_plugin_commands_alias_map [simp]: "alias_map (set_plugin_commands r S) = alias_map r"
  by (simp add: set_plugin_commands_def)

lemma set_plugin_commands_commands [simp]: "commands (set_plugin_commands r S) = commands r"
  by (simp add: set_plugin_commands_def)

lemma register_keeps:
  "plugin_commands r a = Some c \<Longrightarrow> full_alias c' \<noteq> a \<Longrightarrow>
   plugin_commands (register_plugin_command r c') a = Some c"
  by (auto simp: register_plugin_command_def Let_def)

lemma fold_register_keeps:
  "plugin_commands r a = Some c \<Longrightarrow> \<forall>c' \<in> set S. full_alias c' \<noteq> a \<Longrightarrow>
   plugin_commands (fold (\<lambda>c r'. register_plugin_command r' c) S r) a = Some c"
proof (induction S arbitrary: r)
  case Nil
  then show ?case by simp
next
  case (Cons c' S)
  have "plugin_commands (register_plugin_command r c') a = Some c"
    using Cons.prems by (intro register_keeps) auto
  then show ?case using Cons.prems(2) by (simp add: Cons.IH)
qed

lemma register_claims:
  "plugin_commands r (short_alias c) = None \<Longrightarrow> alias_map r (short_alias c) = None \<Longrightarrow>
   plugin_commands (register_plugin_command r c) (short_alias c) = Some c"
  by (simp add: register_short)

lemma fold_register_claims:
  "plugin_commands r a = None \<Longrightarrow> alias_map r a = None \<Longrightarrow>
   \<forall>c' \<in> set S. full_alias c' \<noteq> a \<Longrightarrow> find (\<lambda>c. short_alias c = a) S = Some c \<Longrightarrow>
   plugin_commands (fold (\<lambda>c r'. register_plugin_command r' c) S r) a = Some c"
proof (induction S arbitrary: r)
  case Nil
  then show ?case by simp
next
  case (Cons c' S)
  let ?r = "register_plugin_command r c'"
  from Cons.prems(3) have nf: "full_alias c' \<noteq> a" and rest: "\<forall>c'' \<in> set S. full_alias c'' \<noteq> a"
    by auto
  show ?case
  proof (cases "short_alias c' = a")
    case True
    with Cons.prems(4) have cc: "c = c'" by simp
    have "plugin_commands ?r a = Some c'"
      using Cons.prems(1,2) True register_claims[of r c'] by simp
    then have "plugin_commands (fold (\<lambda>c r'. register_plugin_command r' c) S ?r) a = Some c'"
      using rest by (rule fold_register_keeps)
    then show ?thesis using cc by simp
  next
    case False
    then have "plugin_commands ?r a = None"
      using nf Cons.prems(1) register_other[of a c' r] by simp
    moreover have "alias_map ?r a = None" using Cons.prems(2) by simp
    moreover have "find (\<lambda>c. short_alias c = a) S = Some c" using Cons.prems(4) False by simp
    ultimately have "plugin_commands (fold (\<lambda>c r'. register_plugin_command r' c) S ?r) a = Some c"
      using rest by (intro Cons.IH)
    then show ?thesis by simp
  qed
qed

lemma register_value:
  "plugin_commands (register_plugin_command r c') a = Some c \<Longrightarrow>
   plugin_commands r a = Some c \<or> (c = c' \<and> (a = full_alias c \<or> a = short_alias c))"
  by (auto simp: register_plugin_command_def Let_def split: if_splits)

lemma fold_register_value:
  "plugin_commands (fold (\<lambda>c r'. register_plugin_command r' c) S r) a = Some c \<Longrightarrow>
   plugin_commands r a = Some c \<or> (c \<in> set S \<and> (a = full_alias c \<or> a = short_alias c))"
proof (induction S arbitrary: r)
  case Nil
  then show ?case by simp
next
  case (Cons c' S)
  from Cons.prems
  have "plugin_commands (fold (\<lambda>c r'. register_plugin_command r' c) S (register_plugin_command r c')) a = Some c"
    by simp
  from Cons.IH[OF this] show ?case
  proof
    assume "plugin_commands (register_plugin_command r c') a = Some c"
    from register_value[OF this] show ?thesis by auto
  next
    assume "c \<in> set S \<and> (a = full_alias c \<or> a = short_alias c)"
    then show ?thesis by auto
  qed
qed

lemma register_cong:
  "alias_map r = alias_map r' \<Longrightarrow> plugin_commands r = plugin_commands r' \<Longrightarrow>
   plugin_commands (register_plugin_command r c) = plugin_commands (register_plugin_command r' c)"
  by (simp add: register_plugin_command_def Let_def)

lemma fold_register_cong:
  "alias_map r = alias_map r' \<Longrightarrow> plugin_commands r = plugin_commands r' \<Longrightarrow>
   plugin_commands (fold (\<lambda>c r'. register_plugin_command r' c) S r) =
   plugin_commands (fold (\<lambda>c r'. register_plugin_command r' c) S r')"
proof (induction S arbitrary: r r')
  case Nil
  then show ?case by simp
next
  case (Cons c S)
  have "plugin_commands (register_plugin_command r c) = plugin_commands (register_plugin_command r' c)"
    using Cons.prems by (rule register_cong)
  moreover have "alias_map (register_plugin_command r c) = alias_map (register_plugin_command r' c)"
    using Cons.prems(1) by simp
  ultimately show ?case using Cons.IH by simp
qed

text \<open>
  Claim C5. Whatever the plugin alias table held before, \<open>set_plugin_commands\<close> leaves it holding
  exactly the aliases derived from the new command list \<open>S\<close>: every qualified alias of \<open>S\<close> and
  every short alias of \<open>S\<close> that is not a built-in alias, each bound to a command of \<open>S\<close>. The
  prior table has no influence on the result, so an alias of a plugin that is no longer in \<open>S\<close>
  is gone, and a short alias that is free of built-ins and of qualified aliases goes to the
  first command of \<open>S\<close> that offers it, even if a removed plugin held it before.
\<close>

theorem set_plugin_commands_rebuilds:
  "dom (plugin_commands (set_plugin_commands r S)) =
       full_alias ` set S \<union> {short_alias c | c. c \<in> set S \<and> alias_map r (short_alias c) = None}
   \<and> (\<forall>a c. plugin_commands (set_plugin_commands r S) a = Some c \<longrightarrow>
          c \<in> set S \<and> (a = full_alias c \<or> a = short_alias c))
   \<and> (alias_map r0 = alias_map r \<longrightarrow>
          plugin_commands (set_plugin_commands r0 S) = plugin_commands (set_plugin_commands r S))
   \<and> (find (\<lambda>c. short_alias c = a) S = Some c \<and> alias_map r a = None
        \<and> (\<forall>c' \<in> set S. full_alias c' \<noteq> a) \<longrightarrow>
          plugin_commands (set_plugin_commands r S) a = Some c)"
proof -
  have 1: "dom (plugin_commands (set_plugin_commands r S)) =
       full_alias ` set S \<union> {short_alias c | c. c \<in> set S \<and> alias_map r (short_alias c) = None}"
    by (rule dom_set_plugin_commands)
  have 2: "c \<in> set S \<and> (a = full_alias c \<or> a = short_alias c)"
    if "plugin_commands (set_plugin_commands r S) a = Some c" for a c
    using fold_register_value[of S "r\<lparr>plugin_commands := Map.empty\<rparr>" a c] that
    by (simp add: set_plugin_commands_def)
  have 3: "plugin_commands (set_plugin_commands r0 S) = plugin_commands (set_plugin_commands r S)"
    if "alias_map r0 = alias_map r"
    unfolding set_plugin_commands_def using that by (intro fold_register_cong) simp_all
  have 4: "plugin_commands (set_plugin_commands r S) a = Some c"
    if "find (\<lambda>c. short_alias c = a) S = Some c" "alias_map r a = None"
       "\<forall>c' \<in> set S. full_alias c' \<noteq> a"
    unfolding set_plugin_commands_def using that by (intro fold_register_claims) simp_all
  from 1 2 3 4 show ?thesis by blast
qed

lemma alias_map_deploy: "alias_map (CommandRegistry []) ''/deploy'' = None"
  by (simp add: CommandRegistry_def Let_def build_alias_map_def add_aliases_def builtin_commands_def
      mk_command_def)

theorem set_plugin_commands_rebuilds_witness:
  "plugin_commands (set_plugin_commands (CommandRegistry []) [alpha_deploy]) ''/deploy'' = Some alpha_deploy
   \<and> plugin_commands (set_plugin_commands (set_plugin_commands (CommandRegistry []) [alpha_deploy])
        [beta_deploy]) ''/deploy'' = Some beta_deploy
   \<and> plugin_commands (set_plugin_commands (set_plugin_commands (CommandRegistry []) [alpha_deploy])
        [beta_deploy]) ''/alpha:deploy'' = None"
proof -
  let ?r0 = "CommandRegistry []"
  let ?r1 = "set_plugin_commands ?r0 [alpha_deploy]"
  have sa: "short_alias alpha_deploy = ''/deploy''" "short_alias beta_deploy = ''/deploy''"
    by (simp_all add: short_alias_def alpha_deploy_def beta_deploy_def)
  have fa: "full_alias alpha_deploy = ''/alpha:deploy''" "full_alias beta_deploy = ''/beta:deploy''"
    by (simp_all add: full_alias_def alpha_deploy_def beta_deploy_def)
  have am: "alias_map ?r1 ''/deploy'' = None" using alias_map_deploy by simp
  have a: "plugin_commands ?r1 ''/deploy'' = Some alpha_deploy"
    using set_plugin_commands_rebuilds[where r = ?r0 and S = "[alpha_deploy]" and ?r0.0 = ?r0
        and c = alpha_deploy and a = "''/deploy''"]
      alias_map_deploy sa fa by simp
  have b: "plugin_commands (set_plugin_commands ?r1 [beta_deploy]) ''/deploy'' = Some beta_deploy"
    using set_plugin_commands_rebuilds[where r = ?r1 and S = "[beta_deploy]" and ?r0.0 = ?r1
        and c = beta_deploy and a = "''/deploy''"]
      am sa fa by simp
  have "''/alpha:deploy'' \<notin> dom (plugin_commands (set_plugin_commands ?r1 [beta_deploy]))"
    using set_plugin_commands_rebuilds[where r = ?r1 and S = "[beta_deploy]" and ?r0.0 = ?r1
        and c = beta_deploy and a = "''/deploy''"]
      sa fa by simp
  then have c: "plugin_commands (set_plugin_commands ?r1 [beta_deploy]) ''/alpha:deploy'' = None"
    by (simp add: domIff)
  from a b c show ?thesis by simp
qed

subsection \<open>Lookup and repository normalisation\<close>

lemma isspace_o_lower: "py_isspace \<circ> py_lower_char = py_isspace"
  by (rule ext) (simp add: py_isspace_lower)

lemma not_isspace_o_lower: "(\<lambda>c. \<not> py_isspace c) \<circ> py_lower_char = (\<lambda>c. \<not> py_isspace c)"
  by (rule ext) (simp add: py_isspace_lower)

lemma dropWhile_space_lower:
  "dropWhile py_isspace (py_lower s) = py_lower (dropWhile py_isspace s)"
  by (simp add: py_lower_def dropWhile_map isspace_o_lower)

lemma dropWhile_nonspace_lower:
  "dropWhile (\<lambda>c. \<not> py_isspace c) (py_lower s) = py_lower (dropWhile (\<lambda>c. \<not> py_isspace c) s)"
  by (simp add: py_lower_def dropWhile_map not_isspace_o_lower)

lemma takeWhile_nonspace_lower:
  "takeWhile (\<lambda>c. \<not> py_isspace c) (py_lower s) = py_lower (takeWhile (\<lambda>c. \<not> py_isspace c) s)"
  by (simp add: py_lower_def takeWhile_map not_isspace_o_lower)

lemma py_lower_rev: "rev (py_lower s) = py_lower (rev s)"
  by (simp add: py_lower_def rev_map)

lemma py_lower_Nil_iff: "py_lower s = [] \<longleftrightarrow> s = []"
  by (simp add: py_lower_def)

lemma py_strip_lower: "py_strip (py_lower s) = py_lower (py_strip s)"
  by (simp add: py_strip_def py_lstrip_def py_rstrip_def dropWhile_space_lower py_lower_rev)

lemma py_split_max1_lower: "py_split_max1 (py_lower s) = map py_lower (py_split_max1 s)"
proof -
  define s1 where "s1 = dropWhile py_isspace s"
  define tok where "tok = takeWhile (\<lambda>c. \<not> py_isspace c) s1"
  define rest where "rest = dropWhile py_isspace (dropWhile (\<lambda>c. \<not> py_isspace c) s1)"
  have a: "py_split_max1 s = (if s1 = [] then [] else if rest = [] then [tok] else [tok, rest])"
    unfolding py_split_max1_def Let_def s1_def tok_def rest_def by (rule refl)
  have l1: "dropWhile py_isspace (py_lower s) = py_lower s1"
    unfolding s1_def by (rule dropWhile_space_lower)
  have l2: "takeWhile (\<lambda>c. \<not> py_isspace c) (py_lower s1) = py_lower tok"
    unfolding tok_def by (rule takeWhile_nonspace_lower)
  have l3: "dropWhile py_isspace (dropWhile (\<lambda>c. \<not> py_isspace c) (py_lower s1)) = py_lower rest"
    unfolding rest_def by (simp only: dropWhile_nonspace_lower dropWhile_space_lower)
  have b: "py_split_max1 (py_lower s) =
      (if py_lower s1 = [] then [] else if py_lower rest = [] then [py_lower tok]
       else [py_lower tok, py_lower rest])"
    unfolding py_split_max1_def Let_def l1 l2 l3 by (rule refl)
  show ?thesis
    unfolding a b py_lower_Nil_iff by (cases "s1 = []"; cases "rest = []"; simp)
qed

lemma base_cmd_lower: "base_cmd (map py_lower ps) = py_lower (base_cmd ps)"
  by (cases ps) (simp_all add: base_cmd_def py_lower_def)

lemma py_lower_idem: "py_lower (py_lower s) = py_lower s"
  by (simp add: py_lower_def py_lower_char_idem)

lemma find_command_token:
  "find_command r s =
     (case alias_map r (py_lower (base_cmd (py_split_max1 (py_strip s)))) of
        None \<Rightarrow> None
      | Some n \<Rightarrow> if n = [] then None else map_of (commands r) n)"
  by (simp add: find_command_def py_strip_lower py_split_max1_lower base_cmd_lower)

lemma find_plugin_command_lower:
  "find_plugin_command r s = plugin_commands r (base_cmd (py_split_max1 (py_strip (py_lower s))))"
  by (simp add: find_plugin_command_def py_strip_lower py_split_max1_lower base_cmd_lower)

lemma lstrip_token:
  assumes "\<forall>c \<in> set t. \<not> py_isspace c"
  shows "dropWhile py_isspace t = t"
  using assms by (cases t) auto

lemma strip_token:
  assumes "\<forall>c \<in> set t. \<not> py_isspace c"
  shows "py_strip t = t"
proof -
  have "\<forall>c \<in> set (rev t). \<not> py_isspace c" using assms by simp
  then have "dropWhile py_isspace (rev t) = rev t" by (rule lstrip_token)
  then show ?thesis by (simp add: py_strip_def py_lstrip_def py_rstrip_def lstrip_token[OF assms])
qed

lemma split_token:
  assumes "\<forall>c \<in> set t. \<not> py_isspace c"
  shows "base_cmd (py_split_max1 t) = t"
proof (cases "t = []")
  case True
  then show ?thesis by (simp add: py_split_max1_def base_cmd_def)
next
  case False
  have tw: "takeWhile (\<lambda>c. \<not> py_isspace c) t = t" using assms by (simp add: takeWhile_eq_all_conv)
  have dw: "dropWhile (\<lambda>c. \<not> py_isspace c) t = []" using assms by simp
  have "py_split_max1 t = [t]"
    unfolding py_split_max1_def Let_def lstrip_token[OF assms] tw dw using False by simp
  then show ?thesis by (simp add: base_cmd_def)
qed

lemma token_self:
  assumes "\<forall>c \<in> set t. \<not> py_isspace c"
  shows "base_cmd (py_split_max1 (py_strip t)) = t"
  by (simp only: strip_token[OF assms] split_token[OF assms])

lemma py_rstrip_append:
  assumes "t \<noteq> []" "\<not> py_isspace (last t)"
  shows "py_rstrip (t @ u) = t @ py_rstrip u"
proof (cases "\<forall>c \<in> set u. py_isspace c")
  case True
  then have "dropWhile py_isspace (rev u @ rev t) = dropWhile py_isspace (rev t)"
    by (intro dropWhile_append2) simp
  moreover have "dropWhile py_isspace (rev t) = rev t"
    using assms by (cases t rule: rev_cases) auto
  moreover have "dropWhile py_isspace (rev u) = []" using True by simp
  ultimately show ?thesis by (simp add: py_rstrip_def)
next
  case False
  then obtain c where "c \<in> set (rev u)" "\<not> py_isspace c" by auto
  then have "dropWhile py_isspace (rev u @ rev t) = dropWhile py_isspace (rev u) @ rev t"
    by (simp add: dropWhile_append1)
  then show ?thesis by (simp add: py_rstrip_def)
qed

lemma py_rstrip_Cons_space:
  "py_isspace w \<Longrightarrow> py_rstrip (w # rest) = [] \<or> (\<exists>u. py_rstrip (w # rest) = w # u)"
proof -
  assume w: "py_isspace w"
  show ?thesis
  proof (cases "\<forall>c \<in> set rest. py_isspace c")
    case True
    then have "dropWhile py_isspace (rev rest @ [w]) = []" using w by simp
    then show ?thesis by (simp add: py_rstrip_def)
  next
    case False
    then obtain c where "c \<in> set (rev rest)" "\<not> py_isspace c" by auto
    then have "dropWhile py_isspace (rev rest @ [w]) = dropWhile py_isspace (rev rest) @ [w]"
      by (simp add: dropWhile_append1)
    then show ?thesis by (simp add: py_rstrip_def)
  qed
qed

lemma token_prefix:
  assumes ne: "t \<noteq> []" and ns: "\<forall>c \<in> set t. \<not> py_isspace c" and w: "py_isspace w"
  shows "base_cmd (py_split_max1 (py_strip (t @ w # rest))) = t"
proof -
  from ne ns have hd: "\<not> py_isspace (hd t)" and lst: "\<not> py_isspace (last t)" by auto
  have l: "py_lstrip (t @ w # rest) = t @ w # rest"
    using ne hd by (cases t) (simp_all add: py_lstrip_def)
  have s: "py_strip (t @ w # rest) = t @ py_rstrip (w # rest)"
    by (simp add: py_strip_def l py_rstrip_append[OF ne lst])
  from py_rstrip_Cons_space[OF w, of rest]
  show ?thesis
  proof
    assume "py_rstrip (w # rest) = []"
    with s have "py_strip (t @ w # rest) = t" by simp
    moreover have "base_cmd (py_split_max1 t) = t" by (rule split_token[OF ns])
    ultimately show ?thesis by simp
  next
    assume "\<exists>u. py_rstrip (w # rest) = w # u"
    then obtain u where u: "py_rstrip (w # rest) = w # u" by blast
    have d: "dropWhile py_isspace (t @ w # u) = t @ w # u" using ne hd by (cases t) simp_all
    have tw: "takeWhile (\<lambda>c. \<not> py_isspace c) (t @ w # u) = t"
      using ns w by (simp add: takeWhile_append2 takeWhile_eq_all_conv)
    have "py_split_max1 (t @ w # u) \<noteq> [] \<and> hd (py_split_max1 (t @ w # u)) = t"
      unfolding py_split_max1_def Let_def d tw using ne by simp
    then have "base_cmd (py_split_max1 (t @ w # u)) = t"
      by (cases "py_split_max1 (t @ w # u)") (simp_all add: base_cmd_def)
    then show ?thesis by (simp only: s u)
  qed
qed

lemma find_command_lower_cong:
  "py_lower s' = py_lower s \<Longrightarrow> find_command r s' = find_command r s"
  by (simp add: find_command_def)

lemma find_plugin_command_lower_cong:
  "py_lower s' = py_lower s \<Longrightarrow> find_plugin_command r s' = find_plugin_command r s"
  by (simp add: find_plugin_command_lower)

lemma find_command_of_token:
  assumes "\<forall>c \<in> set t. \<not> py_isspace c"
  shows "find_command r t =
     (case alias_map r (py_lower t) of
        None \<Rightarrow> None
      | Some n \<Rightarrow> if n = [] then None else map_of (commands r) n)"
  by (simp only: find_command_token token_self[OF assms])

lemma find_plugin_command_of_token:
  assumes "\<forall>c \<in> set t. \<not> py_isspace c"
  shows "find_plugin_command r t = plugin_commands r (py_lower t)"
  by (simp add: find_plugin_command_def token_self[OF assms])

text \<open>
  Both lookups take the token before the first whitespace and lowercase it; neither depends
  on the letter case of what is typed.
\<close>

lemma lookup_token_lowercased:
  assumes "t \<noteq> []" and "\<forall>c \<in> set t. \<not> py_isspace c" and "py_isspace w"
  shows "find_command r (t @ w # rest) = find_command r t
       \<and> find_plugin_command r (t @ w # rest) = find_plugin_command r t
       \<and> find_command r t =
           (case alias_map r (py_lower t) of
              None \<Rightarrow> None
            | Some n \<Rightarrow> if n = [] then None else map_of (commands r) n)
       \<and> find_plugin_command r t = plugin_commands r (py_lower t)
       \<and> (\<forall>s. py_lower s = py_lower t \<longrightarrow>
             find_command r s = find_command r t \<and> find_plugin_command r s = find_plugin_command r t)
       \<and> (py_lower t = t \<and> plugin_commands r t = Some c \<longrightarrow> find_plugin_command r t = Some c)"
proof -
  have tp: "base_cmd (py_split_max1 (py_strip (t @ w # rest))) = t"
    by (rule token_prefix[OF assms])
  have ts: "base_cmd (py_split_max1 (py_strip t)) = t"
    by (rule token_self[OF assms(2)])
  have 1: "find_command r (t @ w # rest) = find_command r t"
    by (simp only: find_command_token tp ts)
  have 2: "find_plugin_command r (t @ w # rest) = find_plugin_command r t"
    by (simp only: find_plugin_command_def Let_def tp ts)
  note 3 = find_command_of_token[OF assms(2), of r]
  note 4 = find_plugin_command_of_token[OF assms(2), of r]
  have 5: "find_command r s = find_command r t \<and> find_plugin_command r s = find_plugin_command r t"
    if "py_lower s = py_lower t" for s
    using that find_command_lower_cong[of s t r] find_plugin_command_lower_cong[of s t r] by simp
  have 6: "find_plugin_command r t = Some c" if "py_lower t = t \<and> plugin_commands r t = Some c"
    using that 4 by simp
  from 1 2 3 4 5 6 show ?thesis by blast
qed

lemma alias_map_plan: "alias_map (CommandRegistry []) ''/plan'' = None"
  by (simp add: CommandRegistry_def Let_def build_alias_map_def add_aliases_def builtin_commands_def
      mk_command_def)

lemma alias_map_Plan: "alias_map (CommandRegistry []) ''/Plan'' = None"
  by (simp add: CommandRegistry_def Let_def build_alias_map_def add_aliases_def builtin_commands_def
      mk_command_def)

lemma lookup_token_lowercased_example:
  "find_command (CommandRegistry []) ''/STATUS now''
      = Some (mk_command [''/status'', ''/stats''] ''Display agent statistics'' ''_show_status'')
   \<and> find_plugin_command (set_plugin_commands (CommandRegistry []) [alpha_deploy]) ''/Alpha:Deploy now''
      = Some alpha_deploy"
proof -
  let ?r = "set_plugin_commands (CommandRegistry []) [alpha_deploy]"
  have sp: "py_isspace CHR '' ''" by (simp add: py_isspace_def)
  have t1: "\<forall>c \<in> set ''/status''. \<not> py_isspace c" by (simp add: py_isspace_def)
  have t2: "\<forall>c \<in> set ''/alpha:deploy''. \<not> py_isspace c" by (simp add: py_isspace_def)
  have l1: "py_lower ''/STATUS now'' = py_lower (''/status'' @ CHR '' '' # ''now'')"
    by (simp add: py_lower_def py_lower_char_Char)
  have l2: "py_lower ''/Alpha:Deploy now'' = py_lower (''/alpha:deploy'' @ CHR '' '' # ''now'')"
    by (simp add: py_lower_def py_lower_char_Char)
  have l3: "py_lower ''/status'' = ''/status''" "py_lower ''/alpha:deploy'' = ''/alpha:deploy''"
    by (simp_all add: py_lower_def py_lower_char_Char)
  have am: "alias_map (CommandRegistry []) ''/status'' = Some ''status''"
    by (rule status_alias) simp
  have cm: "map_of (commands (CommandRegistry [])) ''status''
      = Some (mk_command [''/status'', ''/stats''] ''Display agent statistics'' ''_show_status'')"
    by (rule status_command) simp
  have pc: "plugin_commands ?r ''/alpha:deploy'' = Some alpha_deploy"
    by (simp add: set_plugin_commands_def register_plugin_command_def Let_def full_alias_def
        short_alias_def alpha_deploy_def)
  have a: "find_command (CommandRegistry []) ''/STATUS now''
      = Some (mk_command [''/status'', ''/stats''] ''Display agent statistics'' ''_show_status'')"
    using lookup_token_lowercased[where t = "''/status''" and w = "CHR '' ''" and rest = "''now''"
        and r = "CommandRegistry []", OF _ t1 sp]
      find_command_lower_cong[OF l1, of "CommandRegistry []"] l3 am cm by simp
  have b: "find_plugin_command ?r ''/Alpha:Deploy now'' = Some alpha_deploy"
    using lookup_token_lowercased[where t = "''/alpha:deploy''" and w = "CHR '' ''" and rest = "''now''"
        and r = ?r and c = alpha_deploy, OF _ t2 sp]
      find_plugin_command_lower_cong[OF l2, of ?r] l3 pc by simp
  from a b show ?thesis by simp
qed

text \<open>
  Claim C3. Registration stores plugin aliases with their letter case, and the plugin lookup
  lowercases the typed token before it looks it up. With plugin \<open>Foo\<close> offering command
  \<open>Plan\<close>, both aliases \<open>/Foo:Plan\<close> and \<open>/Plan\<close> are in the table, and typing either
  exactly as registered resolves to nothing.
\<close>

theorem find_plugin_command_case_mismatch:
  "plugin_commands (set_plugin_commands (CommandRegistry []) [foo_plan]) ''/Foo:Plan'' = Some foo_plan
   \<and> find_plugin_command (set_plugin_commands (CommandRegistry []) [foo_plan]) ''/Foo:Plan'' = None
   \<and> plugin_commands (set_plugin_commands (CommandRegistry []) [foo_plan]) ''/Plan'' = Some foo_plan
   \<and> find_plugin_command (set_plugin_commands (CommandRegistry []) [foo_plan]) ''/Plan'' = None"
proof -
  let ?r = "set_plugin_commands (CommandRegistry []) [foo_plan]"
  have fa: "full_alias foo_plan = ''/Foo:Plan''" and sa: "short_alias foo_plan = ''/Plan''"
    by (simp_all add: full_alias_def short_alias_def foo_plan_def)
  have pc: "plugin_commands ?r = [''/Foo:Plan'' \<mapsto> foo_plan, ''/Plan'' \<mapsto> foo_plan]"
    by (simp add: set_plugin_commands_def register_plugin_command_def Let_def fa sa alias_map_Plan)
  have t1: "\<forall>c \<in> set ''/Foo:Plan''. \<not> py_isspace c" and t2: "\<forall>c \<in> set ''/Plan''. \<not> py_isspace c"
    by (simp_all add: py_isspace_def)
  have l: "py_lower ''/Foo:Plan'' = ''/foo:plan''" "py_lower ''/Plan'' = ''/plan''"
    by (simp_all add: py_lower_def py_lower_char_Char)
  have a: "find_plugin_command ?r ''/Foo:Plan'' = None"
    unfolding find_plugin_command_of_token[OF t1] l pc by simp
  have b: "find_plugin_command ?r ''/Plan'' = None"
    unfolding find_plugin_command_of_token[OF t2] l pc by simp
  from a b show ?thesis unfolding pc by simp
qed

text \<open>
  Claim C2. On \<open>https://github.com/a/b.git/\<close> the normalisation tests for the \<open>.git\<close> suffix
  while the trailing slash is still there, so only the slash is removed afterwards and the
  result keeps \<open>.git\<close>; without the trailing slash the same source normalises to \<open>a/b\<close>.
\<close>

theorem normalize_repo_git_slash:
  "normalize_repo ''https://github.com/a/b.git/'' = ''a/b.git''
   \<and> normalize_repo ''https://github.com/a/b.git'' = ''a/b''"
  by (simp add: normalize_repo_def py_strip_def py_lstrip_def py_rstrip_def py_isspace_def
      py_startswith_def py_endswith_def py_rstrip_chars_def Let_def)

subsection \<open>Manifest inference\<close>

lemma read_frontmatter_plain:
  "read_frontmatter (File (Some ''Review the change.'')) = Map.empty"
  by (simp add: read_frontmatter_def py_startswith_def)

lemma discover_agents_only:
  "discover_agents agents_only_checkout =
     [\<lparr>agent_name = ''reviewer'', agent_description = [], agent_prompt_file = ''agents/reviewer.md''\<rparr>]"
  by (simp add: discover_agents_def agents_only_checkout_def matches_md_def py_endswith_def
      not_skipped_def skip_files_def py_lower_def py_lower_char_Char md_agent_def
      read_frontmatter_plain dict_get_def py_stem_def Let_def)

lemma infer_agents_only: "infer_manifest ''reviewers'' agents_only_checkout = None"
  by (simp add: infer_manifest_def scan_dir_def agents_only_checkout_def glob_md_def md_commands_def
      matches_md_def py_endswith_def Let_def)

lemma try_manifest_agents_only: "try_manifest loads ''reviewers'' agents_only_checkout p = None"
  if "p \<in> set MANIFEST_PATHS"
  using that
  by (auto simp: MANIFEST_PATHS_def try_manifest_def split_slash_def agents_only_checkout_def)

text \<open>
  Claim C4. On a checkout whose only content is \<open>agents/reviewer.md\<close>, agent discovery finds
  the agent, yet inference returns no manifest, because it gives up as soon as the command
  list is empty; manifest discovery as a whole returns none either.
\<close>

theorem infer_manifest_agents_only:
  "discover_agents agents_only_checkout =
     [\<lparr>agent_name = ''reviewer'', agent_description = [], agent_prompt_file = ''agents/reviewer.md''\<rparr>]
   \<and> infer_manifest ''reviewers'' agents_only_checkout = None
   \<and> parse_manifest loads ''reviewers'' agents_only_checkout = None"
proof -
  have "parse_manifest loads ''reviewers'' agents_only_checkout = None"
    unfolding parse_manifest_def
    by (simp add: MANIFEST_PATHS_def try_manifest_agents_only[unfolded MANIFEST_PATHS_def]
        infer_agents_only)
  then show ?thesis using discover_agents_only infer_agents_only by simp
qed

lemma unique_commands_subset: "set (unique_commands seen cs) \<subseteq> set cs"
  by (induction cs arbitrary: seen) (auto simp: Let_def)

lemma unique_commands_keeps_key:
  "c \<in> set cs \<Longrightarrow> cmd_name c \<noteq> [] \<Longrightarrow>
   (cmd_name c, cmd_prompt_file c) \<in> set seen \<or>
   (\<exists>c' \<in> set (unique_commands seen cs). cmd_name c' = cmd_name c \<and> cmd_prompt_file c' = cmd_prompt_file c)"
proof (induction cs arbitrary: seen)
  case Nil
  then show ?case by simp
next
  case (Cons x cs)
  show ?case
  proof (cases "cmd_name x = [] \<or> (cmd_name x, cmd_prompt_file x) \<in> set seen")
    case True
    then have u: "unique_commands seen (x # cs) = unique_commands seen cs" by (auto simp: Let_def)
    show ?thesis
    proof (cases "c = x")
      case True
      with \<open>cmd_name x = [] \<or> (cmd_name x, cmd_prompt_file x) \<in> set seen\<close> Cons.prems(2)
      show ?thesis by auto
    next
      case False
      with Cons.prems have "c \<in> set cs" by simp
      from Cons.IH[OF this Cons.prems(2), of seen] show ?thesis unfolding u .
    qed
  next
    case False
    then have u: "unique_commands seen (x # cs) =
        x # unique_commands ((cmd_name x, cmd_prompt_file x) # seen) cs"
      by (auto simp: Let_def)
    show ?thesis
    proof (cases "c = x")
      case True
      then show ?thesis unfolding u by simp
    next
      case False
      with Cons.prems have "c \<in> set cs" by simp
      from Cons.IH[OF this Cons.prems(2), of "(cmd_name x, cmd_prompt_file x) # seen"]
      show ?thesis unfolding u by auto
    qed
  qed
qed

lemma root_command_found:
  assumes "(n, nd) \<in> set es" "matches_md n" "py_lower n \<notin> set skip_files"
  shows "md_command [] ([], n, nd) \<in> set (md_commands [] (glob_md (Dir es)))"
proof -
  have "([], n, nd) \<in> set (glob_md (Dir es))"
    using assms(1,2) by (force simp: glob_md_def)
  moreover have "not_skipped ([], n, nd)" using assms(3) by (simp add: not_skipped_def)
  ultimately show ?thesis by (simp add: md_commands_def)
qed

lemma md_command_root_fields:
  "cmd_name (md_command [] ([], n, nd)) = dict_get (read_frontmatter nd) ''name'' (py_stem n)"
  "cmd_prompt_file (md_command [] ([], n, nd)) = n"
  by (simp_all add: md_command_def Let_def)

lemma infer_manifest_Some:
  assumes "c \<in> set (md_commands [] (glob_md root))"
  shows "\<exists>m. infer_manifest pn root = Some m \<and>
     m_commands m = unique_commands [] (scan_dir root ''commands'' @ scan_dir root ''prompts''
                       @ md_commands [] (glob_md root))"
proof -
  have "scan_dir root ''commands'' @ scan_dir root ''prompts'' @ md_commands [] (glob_md root) \<noteq> []"
    using assms by auto
  then show ?thesis by (simp add: infer_manifest_def Let_def)
qed

lemma infer_manifest_commands:
  assumes "infer_manifest pn root = Some m"
  shows "m_commands m = unique_commands [] (scan_dir root ''commands'' @ scan_dir root ''prompts''
                       @ md_commands [] (glob_md root))"
  using assms by (auto simp: infer_manifest_def Let_def split: if_splits)

lemma join_path_slash: "ps \<noteq> [] \<Longrightarrow> CHR ''/'' \<in> set (join_path (p # ps))"
  by (cases ps) simp_all

lemma scan_dir_prompt_file:
  assumes "c \<in> set (scan_dir root base)"
  shows "CHR ''/'' \<in> set (cmd_prompt_file c)"
proof -
  from assms obtain d where d: "child root base = Some d" and c: "c \<in> set (md_commands [base] (rglob_md d))"
    by (cases "child root base") (auto simp: scan_dir_def)
  from c obtain ds nm nd where "c = md_command [base] (ds, nm, nd)"
    by (auto simp: md_commands_def)
  then have "cmd_prompt_file c = join_path (base # ds @ [nm])"
    by (simp add: md_command_def Let_def)
  then show ?thesis using join_path_slash[of "ds @ [nm]" base] by simp
qed

lemma root_prompt_file:
  assumes "c \<in> set (md_commands [] (glob_md root))"
  shows "py_lower (cmd_prompt_file c) \<notin> set skip_files"
proof -
  from assms obtain f where f: "f \<in> set (glob_md root)" "not_skipped f" "c = md_command [] f"
    by (auto simp: md_commands_def)
  from f(1) obtain nm nd where "f = ([], nm, nd)"
    by (auto simp: glob_md_def split: node.splits)
  with f(2,3) show ?thesis by (simp add: not_skipped_def md_command_def Let_def)
qed

lemma py_lower_char_slash: "py_lower_char c = CHR ''/'' \<Longrightarrow> c = CHR ''/''"
  unfolding py_lower_char_def Let_def
  by (auto simp: of_char_of split: if_splits dest!: arg_cong[where f = "of_char :: char \<Rightarrow> nat"])

lemma skip_name_no_slash:
  assumes "py_lower n \<in> set skip_files"
  shows "CHR ''/'' \<notin> set n"
proof
  assume "CHR ''/'' \<in> set n"
  then have "py_lower_char CHR ''/'' \<in> set (py_lower n)" by (simp add: py_lower_def)
  moreover have "py_lower_char CHR ''/'' = CHR ''/''" by (simp add: py_lower_char_Char)
  ultimately have "CHR ''/'' \<in> set (py_lower n)" by simp
  with assms show False by (auto simp: skip_files_def)
qed

lemma py_stem_md_nonempty:
  assumes "matches_md n"
  shows "py_stem n \<noteq> []"
proof -
  from assms have "n \<noteq> []" by (auto simp: matches_md_def py_endswith_def)
  then show ?thesis by (auto simp: py_stem_def Let_def)
qed

subsection \<open>Manifest discovery order\<close>

lemma parse_manifest_from_first:
  "i < length ps \<Longrightarrow> \<forall>j<i. try_manifest loads pn root (ps ! j) = None \<Longrightarrow>
   try_manifest loads pn root (ps ! i) = Some m \<Longrightarrow>
   parse_manifest_from loads pn root ps = Some m"
proof (induction ps arbitrary: i)
  case Nil
  then show ?case by simp
next
  case (Cons p ps)
  show ?case
  proof (cases i)
    case 0
    with Cons.prems(3) show ?thesis by simp
  next
    case (Suc k)
    from Cons.prems(2) Suc have p: "try_manifest loads pn root p = None" by auto
    have "k < length ps" using Cons.prems(1) Suc by simp
    moreover have "\<forall>j<k. try_manifest loads pn root (ps ! j) = None"
    proof (intro allI impI)
      fix j assume "j < k"
      then have "Suc j < i" using Suc by simp
      with Cons.prems(2) have "try_manifest loads pn root ((p # ps) ! Suc j) = None" by blast
      then show "try_manifest loads pn root (ps ! j) = None" by simp
    qed
    moreover have "try_manifest loads pn root (ps ! k) = Some m" using Cons.prems(3) Suc by simp
    ultimately have "parse_manifest_from loads pn root ps = Some m" by (rule Cons.IH)
    with p show ?thesis by simp
  qed
qed

lemma parse_manifest_from_none:
  "\<forall>p \<in> set ps. try_manifest loads pn root p = None \<Longrightarrow>
   parse_manifest_from loads pn root ps = infer_manifest pn root"
  by (induction ps) simp_all







subsection \<open>The plugin store\<close>

text \<open>
  Claim C9. Uninstalling a name that is not in the registry returns false and leaves the
  whole store as it was: the registry in memory, the configuration file (nothing is
  written), the disk.
\<close>

theorem uninstall_unknown:
  "map_of (installed st) nm = None \<Longrightarrow> uninstall st nm = (False, st)"
  by (simp add: uninstall_def)

theorem uninstall_unknown_witness:
  "map_of (installed demo_store) ''other'' = None \<and> uninstall demo_store ''other'' = (False, demo_store)"
proof -
  have h: "map_of (installed demo_store) ''other'' = None" by (simp add: demo_store_def)
  from uninstall_unknown[OF h] h show ?thesis by simp
qed

lemma checkout_keeps:
  "installed (snd (checkout w st repo)) = installed st"
  "config_file (snd (checkout w st repo)) = config_file st"
  "marketplaces (snd (checkout w st repo)) = marketplaces st"
  "plugins_dir (snd (checkout w st repo)) = plugins_dir st"
  "command_files (snd (checkout w st repo)) = command_files st"
  by (simp_all add: checkout_def Let_def split: prod.splits)

lemma checkout_pull_fails:
  assumes "disk st (install_path_of st repo) \<noteq> None"
    and "fst (git_pull w (install_path_of st repo) (disk st (install_path_of st repo))) = rc" and "rc \<noteq> 0"
  shows "fst (checkout w st repo) = Inl (CalledProcessError rc)"
  using assms by (auto simp: checkout_def Let_def split: prod.splits)

lemma checkout_clone_fails:
  assumes "disk st (install_path_of st repo) = None"
    and "fst (git_clone w (clone_url repo) (install_path_of st repo)) = rc" and "rc \<noteq> 0"
  shows "fst (checkout w st repo) = Inl (CalledProcessError rc)"
  using assms by (auto simp: checkout_def Let_def split: prod.splits)

lemma install_checkout_fails:
  assumes "resolve_source w st source fm = Inr repo" and "fst (checkout w st repo) = Inl e"
  shows "install w source fm st = (Inl e, snd (checkout w st repo))"
proof -
  obtain r st1 where c: "checkout w st repo = (r, st1)" by (cases "checkout w st repo")
  with assms(2) have "r = Inl e" by simp
  with c assms(1) show ?thesis by (simp add: install_def)
qed

text \<open>
  Claim C6. When the repository resolves and the git command that \<open>install\<close> runs, the pull
  in an existing install path or the clone otherwise, exits with a non-zero status, \<open>install\<close>
  ends with \<open>CalledProcessError\<close> and the registry of installed plugins, the marketplaces and
  the configuration file are what they were before the call.
\<close>

theorem install_git_failure:
  assumes "resolve_source w st source fm = Inr repo"
    and "rc \<noteq> 0"
    and "(if disk st (install_path_of st repo) \<noteq> None
          then fst (git_pull w (install_path_of st repo) (disk st (install_path_of st repo)))
          else fst (git_clone w (clone_url repo) (install_path_of st repo))) = rc"
  shows "fst (install w source fm st) = Inl (CalledProcessError rc)
       \<and> installed (snd (install w source fm st)) = installed st
       \<and> config_file (snd (install w source fm st)) = config_file st
       \<and> marketplaces (snd (install w source fm st)) = marketplaces st"
proof -
  have f: "fst (checkout w st repo) = Inl (CalledProcessError rc)"
  proof (cases "disk st (install_path_of st repo) = None")
    case True
    with assms(3) have "fst (git_clone w (clone_url repo) (install_path_of st repo)) = rc" by simp
    from checkout_clone_fails[OF True this assms(2)] show ?thesis .
  next
    case False
    with assms(3) have "fst (git_pull w (install_path_of st repo) (disk st (install_path_of st repo))) = rc"
      by simp
    from checkout_pull_fails[OF False this assms(2)] show ?thesis .
  qed
  have "install w source fm st = (Inl (CalledProcessError rc), snd (checkout w st repo))"
    by (rule install_checkout_fails[OF assms(1) f])
  then show ?thesis by (simp add: checkout_keeps)
qed

lemma normalize_acme_demo: "normalize_repo ''acme/demo'' = ''acme/demo''"
  by (simp add: normalize_repo_def py_strip_def py_lstrip_def py_rstrip_def py_isspace_def
      py_startswith_def py_endswith_def py_rstrip_chars_def Let_def)

lemma normalize_acme_notes: "normalize_repo ''acme/notes'' = ''acme/notes''"
  by (simp add: normalize_repo_def py_strip_def py_lstrip_def py_rstrip_def py_isspace_def
      py_startswith_def py_endswith_def py_rstrip_chars_def Let_def)

lemma resolve_acme_demo: "resolve_source w demo_store ''acme/demo'' None = Inr ''acme/demo''"
  by (simp add: resolve_source_def normalize_acme_demo)

lemma resolve_acme_notes: "resolve_source w demo_store ''acme/notes'' None = Inr ''acme/notes''"
  by (simp add: resolve_source_def normalize_acme_notes)

lemma install_path_demo: "install_path_of demo_store ''acme/demo'' = ''home/plugins/demo''"
  by (simp add: install_path_of_def plugin_name_of_def demo_store_def)

lemma install_path_notes: "install_path_of demo_store ''acme/notes'' = ''home/plugins/notes''"
  by (simp add: install_path_of_def plugin_name_of_def demo_store_def)

theorem install_git_failure_witness:
  "fst (install offline_world ''acme/notes'' None demo_store) = Inl (CalledProcessError 128)
   \<and> installed (snd (install offline_world ''acme/notes'' None demo_store)) = installed demo_store
   \<and> config_file (snd (install offline_world ''acme/notes'' None demo_store)) = config_file demo_store
   \<and> fst (install offline_world ''acme/demo'' None demo_store) = Inl (CalledProcessError 1)
   \<and> installed (snd (install offline_world ''acme/demo'' None demo_store)) = installed demo_store
   \<and> config_file (snd (install offline_world ''acme/demo'' None demo_store)) = config_file demo_store"
proof -
  have d1: "disk demo_store ''home/plugins/notes'' = None"
    and d2: "disk demo_store ''home/plugins/demo'' = Some (Dir [])"
    by (simp_all add: demo_store_def)
  have a: "(if disk demo_store (install_path_of demo_store ''acme/notes'') \<noteq> None
          then fst (git_pull offline_world (install_path_of demo_store ''acme/notes'')
                 (disk demo_store (install_path_of demo_store ''acme/notes'')))
          else fst (git_clone offline_world (clone_url ''acme/notes'')
                 (install_path_of demo_store ''acme/notes''))) = 128"
    by (simp add: install_path_notes d1 offline_world_def)
  have b: "(if disk demo_store (install_path_of demo_store ''acme/demo'') \<noteq> None
          then fst (git_pull offline_world (install_path_of demo_store ''acme/demo'')
                 (disk demo_store (install_path_of demo_store ''acme/demo'')))
          else fst (git_clone offline_world (clone_url ''acme/demo'')
                 (install_path_of demo_store ''acme/demo''))) = 1"
    by (simp add: install_path_demo d2 offline_world_def)
  from install_git_failure[OF resolve_acme_notes _ a] install_git_failure[OF resolve_acme_demo _ b]
  show ?thesis by simp
qed

subsection \<open>Installing twice\<close>

lemma dict_set_keys:
  "map fst (dict_set k v d) = (if k \<in> fst ` set d then map fst d else map fst d @ [k])"
  by (induction d) auto

lemma dict_set_distinct:
  "distinct (map fst d) \<Longrightarrow> distinct (map fst (dict_set k v d))"
  by (simp add: dict_set_keys)

lemma dict_set_has_key: "k \<in> fst ` set (dict_set k v d)"
  by (induction d) auto

lemma distinct_count_one:
  "distinct (map fst d) \<Longrightarrow> k \<in> fst ` set d \<Longrightarrow> length (filter (\<lambda>kv. fst kv = k) d) = 1"
proof (induction d)
  case Nil
  then show ?case by simp
next
  case (Cons x d)
  show ?case
  proof (cases "fst x = k")
    case True
    with Cons.prems(1) have "k \<notin> fst ` set d" by auto
    then have "filter (\<lambda>kv. fst kv = k) d = []" by (auto simp: filter_empty_conv)
    with True show ?thesis by simp
  next
    case False
    with Cons.prems have "k \<in> fst ` set d" "distinct (map fst d)" by auto
    with Cons.IH False show ?thesis by simp
  qed
qed

lemma install_commands_keeps:
  "installed (snd (install_commands w root p cmds st)) = installed st"
  "git_calls (snd (install_commands w root p cmds st)) = git_calls st"
  "disk (snd (install_commands w root p cmds st)) = disk st"
  "marketplaces (snd (install_commands w root p cmds st)) = marketplaces st"
  "plugins_dir (snd (install_commands w root p cmds st)) = plugins_dir st"
  "config_file (snd (install_commands w root p cmds st)) = config_file st"
  by (induction w root p cmds st rule: install_commands.induct; simp split: sum.splits option.splits)+

lemma save_config_keeps [simp]:
  "installed (save_config st) = installed st"
  "git_calls (save_config st) = git_calls st"
  "disk (save_config st) = disk st"
  "marketplaces (save_config st) = marketplaces st"
  "plugins_dir (save_config st) = plugins_dir st"
  by (simp_all add: save_config_def)

lemma snd_install_tail:
  "snd (case p of (Inl e, st3) \<Rightarrow> (Inl e, st3) | (Inr u', st3) \<Rightarrow> (Inr x, st3)) = snd p"
  by (cases p; cases "fst p"; simp)

lemma install_after_checkout:
  assumes "resolve_source w st source fm = Inr repo" and "checkout w st repo = (Inr u, st1)"
  shows "installed (snd (install w source fm st)) =
           dict_set (entry_name w repo (disk st1 (install_path_of st repo)))
             \<lparr>ip_name = entry_name w repo (disk st1 (install_path_of st repo)),
               ip_version = (case parse_manifest (json_loads w) (plugin_name_of repo)
                   (case disk st1 (install_path_of st repo) of Some nd \<Rightarrow> nd | None \<Rightarrow> Dir []) of
                   Some m \<Rightarrow> m_version m | None \<Rightarrow> ''1.0.0''),
               ip_description = (case parse_manifest (json_loads w) (plugin_name_of repo)
                   (case disk st1 (install_path_of st repo) of Some nd \<Rightarrow> nd | None \<Rightarrow> Dir []) of
                   Some m \<Rightarrow> m_description m | None \<Rightarrow> []),
               ip_repository = repo, ip_install_path = install_path_of st repo, ip_enabled = True,
               ip_manifest = parse_manifest (json_loads w) (plugin_name_of repo)
                   (case disk st1 (install_path_of st repo) of Some nd \<Rightarrow> nd | None \<Rightarrow> Dir [])\<rparr>
             (installed st1)"
    and "git_calls (snd (install w source fm st)) = git_calls st1"
    and "disk (snd (install w source fm st)) = disk st1"
    and "marketplaces (snd (install w source fm st)) = marketplaces st1"
    and "plugins_dir (snd (install w source fm st)) = plugins_dir st1"
  using assms
  by (simp_all add: install_def Let_def entry_name_def snd_install_tail install_commands_keeps)

lemma resolve_source_marketplaces:
  "marketplaces st' = marketplaces st \<Longrightarrow> resolve_source w st' source fm = resolve_source w st source fm"
  by (simp add: resolve_source_def find_in_marketplaces_def)

lemma install_path_of_plugins_dir:
  "plugins_dir st' = plugins_dir st \<Longrightarrow> install_path_of st' repo = install_path_of st repo"
  by (simp add: install_path_of_def)

lemma checkout_clone_ok:
  assumes "disk st (install_path_of st repo) = None"
    and "git_clone w (clone_url repo) (install_path_of st repo) = (0, after)"
  shows "checkout w st repo =
      (Inr (), st\<lparr>disk := (disk st)(install_path_of st repo := after),
                  git_calls := git_calls st @ [GitClone (clone_url repo) (install_path_of st repo)]\<rparr>)"
  using assms by (simp add: checkout_def Let_def)

lemma checkout_pull:
  assumes "disk st (install_path_of st repo) = Some t"
    and "git_pull w (install_path_of st repo) (Some t) = (rc, after)"
  shows "checkout w st repo =
      ((if rc \<noteq> 0 then Inl (CalledProcessError rc) else Inr ()),
       st\<lparr>disk := (disk st)(install_path_of st repo := after),
           git_calls := git_calls st @ [GitPull (install_path_of st repo)]\<rparr>)"
  using assms by (simp add: checkout_def Let_def)

text \<open>
  Claim C7, as the code has it. Take a source that resolves, an install path that does not
  exist yet and a clone that succeeds and leaves a checkout there. Then two calls of
  \<open>install\<close> in a row run
  exactly one clone and then one pull, and afterwards the registry holds exactly one entry
  under the plugin's name; when the pull succeeds and its checkout names the plugin as
  before, or when the pull fails, the second call adds no key to the registry at all.
\<close>

theorem install_twice:
  assumes "resolve_source w st0 source fm = Inr repo"
    and "disk st0 (install_path_of st0 repo) = None"
    and "git_clone w (clone_url repo) (install_path_of st0 repo) = (0, Some t1)"
    and "distinct (map fst (installed st0))"
  shows "git_calls (snd (install w source fm (snd (install w source fm st0)))) =
           git_calls st0 @ [GitClone (clone_url repo) (install_path_of st0 repo),
                            GitPull (install_path_of st0 repo)]
       \<and> length (filter (\<lambda>kv. fst kv = entry_name w repo (Some t1))
            (installed (snd (install w source fm (snd (install w source fm st0)))))) = 1
       \<and> ((fst (git_pull w (install_path_of st0 repo) (Some t1)) = 0 \<longrightarrow>
             entry_name w repo (snd (git_pull w (install_path_of st0 repo) (Some t1)))
               = entry_name w repo (Some t1))
          \<longrightarrow> map fst (installed (snd (install w source fm (snd (install w source fm st0))))) =
                map fst (installed (snd (install w source fm st0))))"
proof -
  let ?path = "install_path_of st0 repo"
  let ?st1 = "snd (install w source fm st0)"
  let ?st2 = "snd (install w source fm ?st1)"
  let ?n1 = "entry_name w repo (Some t1)"
  let ?c0 = "st0\<lparr>disk := (disk st0)(?path := Some t1),
                 git_calls := git_calls st0 @ [GitClone (clone_url repo) ?path]\<rparr>"
  have c0: "checkout w st0 repo = (Inr (), ?c0)"
    by (rule checkout_clone_ok[OF assms(2,3)])
  note i1 = install_after_checkout[OF assms(1) c0]
  have d1: "disk ?st1 ?path = Some t1" using i1(3) by simp
  have g1: "git_calls ?st1 = git_calls st0 @ [GitClone (clone_url repo) ?path]" using i1(2) by simp
  have m1: "marketplaces ?st1 = marketplaces st0" using i1(4) by simp
  have p1: "plugins_dir ?st1 = plugins_dir st0" using i1(5) by simp
  have k1: "?n1 \<in> fst ` set (installed ?st1)"
    using i1(1) dict_set_has_key[of ?n1 _ "installed st0"] by simp
  have dist1: "distinct (map fst (installed ?st1))"
    using i1(1) dict_set_distinct[OF assms(4)] by simp
  have rs1: "resolve_source w ?st1 source fm = Inr repo"
    using resolve_source_marketplaces[OF m1] assms(1) by simp
  have ip1: "install_path_of ?st1 repo = ?path"
    by (rule install_path_of_plugins_dir[OF p1])
  obtain rc after where gp: "git_pull w ?path (Some t1) = (rc, after)"
    by (cases "git_pull w ?path (Some t1)")
  let ?c1 = "?st1\<lparr>disk := (disk ?st1)(?path := after),
                   git_calls := git_calls ?st1 @ [GitPull ?path]\<rparr>"
  have c1: "checkout w ?st1 repo = ((if rc \<noteq> 0 then Inl (CalledProcessError rc) else Inr ()), ?c1)"
    using checkout_pull[of ?st1 repo t1 w rc after] d1 gp by (simp add: ip1)
  have res: "git_calls ?st2 = git_calls ?st1 @ [GitPull ?path]
      \<and> distinct (map fst (installed ?st2))
      \<and> ?n1 \<in> set (map fst (installed ?st2))
      \<and> ((rc = 0 \<longrightarrow> entry_name w repo after = ?n1)
           \<longrightarrow> map fst (installed ?st2) = map fst (installed ?st1))"
  proof (cases "rc = 0")
    case False
    then have "fst (checkout w ?st1 repo) = Inl (CalledProcessError rc)" using c1 by simp
    from install_checkout_fails[OF rs1 this] c1 have "?st2 = ?c1" by simp
    then have "git_calls ?st2 = git_calls ?st1 @ [GitPull ?path]"
      and "installed ?st2 = installed ?st1" by simp_all
    then show ?thesis using dist1 k1 by simp
  next
    case True
    then have c1': "checkout w ?st1 repo = (Inr (), ?c1)" using c1 by simp
    note i2 = install_after_checkout[OF rs1 c1']
    have n2: "entry_name w repo (disk ?c1 (install_path_of ?st1 repo)) = entry_name w repo after"
      by (simp add: ip1)
    have ic: "installed ?c1 = installed ?st1" by simp
    have g: "git_calls ?st2 = git_calls ?st1 @ [GitPull ?path]" using i2(2) by simp
    have d: "distinct (map fst (installed ?st2))"
      unfolding i2(1) ic by (rule dict_set_distinct[OF dist1])
    have k: "?n1 \<in> set (map fst (installed ?st2))"
      unfolding i2(1) ic dict_set_keys using k1 by simp
    have e: "map fst (installed ?st2) = map fst (installed ?st1)" if "entry_name w repo after = ?n1"
      unfolding i2(1) ic n2 that dict_set_keys using k1 by simp
    from g d k e True show ?thesis by simp
  qed
  have a: "git_calls ?st2 = git_calls st0 @ [GitClone (clone_url repo) ?path, GitPull ?path]"
    using res g1 by simp
  have "?n1 \<in> fst ` set (installed ?st2)" using res by simp
  with res have b: "length (filter (\<lambda>kv. fst kv = ?n1) (installed ?st2)) = 1"
    by (intro distinct_count_one) simp_all
  have c: "map fst (installed ?st2) = map fst (installed ?st1)"
    if "fst (git_pull w ?path (Some t1)) = 0 \<longrightarrow>
        entry_name w repo (snd (git_pull w ?path (Some t1))) = ?n1"
    using that res gp by simp
  from a b c show ?thesis by blast
qed

lemma try_manifest_note:
  "p \<in> set MANIFEST_PATHS \<Longrightarrow>
   try_manifest (\<lambda>t. None) pn (Dir [(''note.md'', File (Some ''Take a note.''))]) p = None"
  by (auto simp: MANIFEST_PATHS_def try_manifest_def split_slash_def)

lemma infer_manifest_note:
  "\<exists>m. infer_manifest ''notes'' (Dir [(''note.md'', File (Some ''Take a note.''))]) = Some m
        \<and> m_name m = ''notes''"
  by (simp add: infer_manifest_def scan_dir_def glob_md_def md_commands_def matches_md_def
      py_endswith_def not_skipped_def skip_files_def py_lower_def py_lower_char_Char Let_def)

lemma entry_name_notes:
  "entry_name online_world ''acme/notes'' (Some (Dir [(''note.md'', File (Some ''Take a note.''))]))
     = ''notes''"
proof -
  have pn: "plugin_name_of ''acme/notes'' = ''notes''" by (simp add: plugin_name_of_def)
  have jl: "json_loads online_world = (\<lambda>t. None)" by (simp add: online_world_def)
  have "parse_manifest (\<lambda>t. None) ''notes'' (Dir [(''note.md'', File (Some ''Take a note.''))])
      = infer_manifest ''notes'' (Dir [(''note.md'', File (Some ''Take a note.''))])"
    unfolding parse_manifest_def
    by (rule parse_manifest_from_none) (simp add: try_manifest_note)
  then show ?thesis using infer_manifest_note by (auto simp: entry_name_def pn jl)
qed

theorem install_twice_witness:
  "git_calls (snd (install online_world ''acme/notes'' None
       (snd (install online_world ''acme/notes'' None demo_store)))) =
     [GitClone ''https://github.com/acme/notes.git'' ''home/plugins/notes'',
      GitPull ''home/plugins/notes'']
   \<and> length (filter (\<lambda>kv. fst kv = ''notes'')
        (installed (snd (install online_world ''acme/notes'' None
           (snd (install online_world ''acme/notes'' None demo_store)))))) = 1"
proof -
  let ?t1 = "Dir [(''note.md'', File (Some ''Take a note.''))]"
  have "disk demo_store ''home/plugins/notes'' = None" by (simp add: demo_store_def)
  then have fresh: "disk demo_store (install_path_of demo_store ''acme/notes'') = None"
    by (simp only: install_path_notes)
  have clone: "git_clone online_world (clone_url ''acme/notes'')
      (install_path_of demo_store ''acme/notes'') = (0, Some ?t1)"
    by (simp add: online_world_def)
  have dist: "distinct (map fst (installed demo_store))" by (simp add: demo_store_def)
  have pull: "git_pull online_world (install_path_of demo_store ''acme/notes'') (Some ?t1) = (0, Some ?t1)"
    by (simp add: online_world_def)
  have same: "fst (git_pull online_world (install_path_of demo_store ''acme/notes'') (Some ?t1)) = 0 \<longrightarrow>
      entry_name online_world ''acme/notes''
        (snd (git_pull online_world (install_path_of demo_store ''acme/notes'') (Some ?t1)))
      = entry_name online_world ''acme/notes'' (Some ?t1)"
    by (simp add: pull)
  have gc: "git_calls demo_store = []" by (simp add: demo_store_def)
  have cu: "clone_url ''acme/notes'' = ''https://github.com/acme/notes.git''"
    by (simp add: clone_url_def)
  from install_twice[OF resolve_acme_notes fresh clone dist] same
  show ?thesis by (simp add: entry_name_notes install_path_notes gc cu)
qed

subsection \<open>Registration and lookup together\<close>

text \<open>
  Claim C1, as the code has it. Registering a plugin command always enters its qualified
  alias \<open>/{plugin_name}:{name}\<close> in the plugin alias table, and enters the short alias
  \<open>/{name}\<close> only when that string is neither a built-in alias nor already a plugin alias; the
  built-in tables are left alone. An alias so entered resolves through \<open>find_plugin_command\<close>
  when it has no whitespace and no uppercase letter. When the built-in \<open>status\<close> command has
  not been excluded, \<open>/status\<close> keeps resolving to it after any sequence of registrations
  and never resolves to a plugin command.
\<close>

theorem register_plugin_command_aliases:
  "plugin_commands (register_plugin_command r cmd) (full_alias cmd) = Some cmd
   \<and> ((\<forall>c \<in> set (full_alias cmd). \<not> py_isspace c) \<and> py_lower (full_alias cmd) = full_alias cmd
        \<longrightarrow> find_plugin_command (register_plugin_command r cmd) (full_alias cmd) = Some cmd)
   \<and> plugin_commands (register_plugin_command r cmd) (short_alias cmd) =
       (if alias_map r (short_alias cmd) = None \<and> plugin_commands r (short_alias cmd) = None
        then Some cmd else plugin_commands r (short_alias cmd))
   \<and> ((\<forall>c \<in> set (short_alias cmd). \<not> py_isspace c) \<and> py_lower (short_alias cmd) = short_alias cmd
        \<longrightarrow> find_plugin_command (register_plugin_command r cmd) (short_alias cmd) =
              (if alias_map r (short_alias cmd) = None \<and> plugin_commands r (short_alias cmd) = None
               then Some cmd else plugin_commands r (short_alias cmd)))
   \<and> alias_map (register_plugin_command r cmd) = alias_map r
   \<and> commands (register_plugin_command r cmd) = commands r
   \<and> (''status'' \<notin> set ex \<longrightarrow>
        find_command (register_plugin_command (set_plugin_commands (CommandRegistry ex) S) cmd)
            ''/status''
          = Some (mk_command [''/status'', ''/stats''] ''Display agent statistics'' ''_show_status'')
        \<and> plugin_commands (register_plugin_command (set_plugin_commands (CommandRegistry ex) S) cmd)
            ''/status'' = None
        \<and> find_plugin_command (register_plugin_command (set_plugin_commands (CommandRegistry ex) S) cmd)
            ''/status'' = None)"
proof -
  let ?r' = "register_plugin_command r cmd"
  have f: "find_plugin_command ?r' (full_alias cmd) = Some cmd"
    if h: "(\<forall>c \<in> set (full_alias cmd). \<not> py_isspace c) \<and> py_lower (full_alias cmd) = full_alias cmd"
  proof -
    from h have t: "\<forall>c \<in> set (full_alias cmd). \<not> py_isspace c" by simp
    show ?thesis using find_plugin_command_of_token[OF t, of ?r'] h register_full[of r cmd] by simp
  qed
  have s: "find_plugin_command ?r' (short_alias cmd) =
              (if alias_map r (short_alias cmd) = None \<and> plugin_commands r (short_alias cmd) = None
               then Some cmd else plugin_commands r (short_alias cmd))"
    if h: "(\<forall>c \<in> set (short_alias cmd). \<not> py_isspace c) \<and> py_lower (short_alias cmd) = short_alias cmd"
  proof -
    from h have t: "\<forall>c \<in> set (short_alias cmd). \<not> py_isspace c" by simp
    show ?thesis using find_plugin_command_of_token[OF t, of ?r'] h register_short[of r cmd] by simp
  qed
  have st: "find_command (register_plugin_command (set_plugin_commands (CommandRegistry ex) S) cmd)
            ''/status''
          = Some (mk_command [''/status'', ''/stats''] ''Display agent statistics'' ''_show_status'')
        \<and> plugin_commands (register_plugin_command (set_plugin_commands (CommandRegistry ex) S) cmd)
            ''/status'' = None
        \<and> find_plugin_command (register_plugin_command (set_plugin_commands (CommandRegistry ex) S) cmd)
            ''/status'' = None" if ex: "''status'' \<notin> set ex"
  proof -
    let ?r = "register_plugin_command (set_plugin_commands (CommandRegistry ex) S) cmd"
    have am: "alias_map ?r ''/status'' = Some ''status''"
      using status_alias[OF ex] by simp
    have "find_command ?r ''/status'' = map_of (commands ?r) ''status''"
      by (rule find_command_status[OF am])
    then have a: "find_command ?r ''/status''
        = Some (mk_command [''/status'', ''/stats''] ''Display agent statistics'' ''_show_status'')"
      using status_command[OF ex] by simp
    have "''/status'' \<notin> dom (plugin_commands (set_plugin_commands (CommandRegistry ex) (S @ [cmd])))"
      by (rule status_never_plugin_alias[OF status_alias[OF ex]])
    then have b: "plugin_commands ?r ''/status'' = None"
      unfolding set_plugin_commands_snoc by (simp add: domIff)
    have t: "\<forall>c \<in> set ''/status''. \<not> py_isspace c" by (simp add: py_isspace_def)
    have l: "py_lower ''/status'' = ''/status''" by (simp add: py_lower_def py_lower_char_Char)
    have c: "find_plugin_command ?r ''/status'' = None"
      using find_plugin_command_of_token[OF t, of ?r] l b by simp
    from a b c show ?thesis by simp
  qed
  show ?thesis
    using register_full[of r cmd] register_short[of r cmd] f s st by simp
qed

theorem register_plugin_command_aliases_witness:
  "''status'' \<notin> set ([] :: string list)
   \<and> list_all (\<lambda>c. \<not> py_isspace c) ''/tools:status'' \<and> py_lower ''/tools:status'' = ''/tools:status''
   \<and> plugin_commands (register_plugin_command (CommandRegistry []) status_plugin_cmd) ''/tools:status''
       = Some status_plugin_cmd
   \<and> find_plugin_command (register_plugin_command (CommandRegistry []) status_plugin_cmd) ''/tools:status''
       = Some status_plugin_cmd
   \<and> plugin_commands (register_plugin_command (CommandRegistry []) status_plugin_cmd) ''/status'' = None
   \<and> find_plugin_command (register_plugin_command (CommandRegistry []) status_plugin_cmd) ''/status'' = None
   \<and> find_command (register_plugin_command (set_plugin_commands (CommandRegistry []) []) status_plugin_cmd)
        ''/status''
       = Some (mk_command [''/status'', ''/stats''] ''Display agent statistics'' ''_show_status'')"
proof -
  have fa: "full_alias status_plugin_cmd = ''/tools:status''"
    by (simp add: full_alias_def status_plugin_cmd_def)
  have sa: "short_alias status_plugin_cmd = ''/status''"
    by (simp add: short_alias_def status_plugin_cmd_def)
  have am: "alias_map (CommandRegistry []) ''/status'' = Some ''status''"
    by (rule status_alias) simp
  have pc: "plugin_commands (CommandRegistry []) ''/status'' = None"
    by (simp add: CommandRegistry_def Let_def)
  have t1: "\<forall>c \<in> set ''/tools:status''. \<not> py_isspace c" and t2: "\<forall>c \<in> set ''/status''. \<not> py_isspace c"
    by (simp_all add: py_isspace_def)
  have l1: "py_lower ''/tools:status'' = ''/tools:status''" and l2: "py_lower ''/status'' = ''/status''"
    by (simp_all add: py_lower_def py_lower_char_Char)
  have e: "set_plugin_commands (CommandRegistry []) [] = CommandRegistry []"
    by (simp add: set_plugin_commands_def CommandRegistry_def Let_def)
  from register_plugin_command_aliases[of "CommandRegistry []" status_plugin_cmd "[]" "[]"]
  show ?thesis unfolding fa sa e using am pc t1 t2 l1 l2 by (simp add: list_all_iff)
qed

theorem register_plugin_command_aliases_counterexample:
  "plugin_commands (register_plugin_command (CommandRegistry []) code_review_cmd) ''/tools:code review''
       = Some code_review_cmd
   \<and> find_plugin_command (register_plugin_command (CommandRegistry []) code_review_cmd)
        ''/tools:code review'' = None"
proof -
  let ?r = "register_plugin_command (CommandRegistry []) code_review_cmd"
  have fa: "full_alias code_review_cmd = ''/tools:code review''"
    and sa: "short_alias code_review_cmd = ''/code review''"
    by (simp_all add: full_alias_def short_alias_def code_review_cmd_def)
  have a: "plugin_commands ?r ''/tools:code review'' = Some code_review_cmd"
    using register_full[of "CommandRegistry []" code_review_cmd] by (simp add: fa)
  have e: "plugin_commands (CommandRegistry []) ''/tools:code'' = None"
    by (simp add: CommandRegistry_def Let_def)
  have o: "plugin_commands ?r ''/tools:code'' = plugin_commands (CommandRegistry []) ''/tools:code''"
    by (rule register_other) (simp_all add: fa sa)
  have t: "\<forall>c \<in> set ''/tools:code''. \<not> py_isspace c" by (simp add: py_isspace_def)
  have sp: "py_isspace CHR '' ''" by (simp add: py_isspace_def)
  have l: "py_lower ''/tools:code'' = ''/tools:code''" by (simp add: py_lower_def py_lower_char_Char)
  have "base_cmd (py_split_max1 (py_strip (''/tools:code'' @ CHR '' '' # ''review''))) = ''/tools:code''"
    by (rule token_prefix[OF _ t sp]) simp
  then have "find_plugin_command ?r ''/tools:code review'' = plugin_commands ?r ''/tools:code''"
    by (simp add: find_plugin_command_def l)
  with o e a show ?thesis by simp
qed

subsection \<open>Root markdown files in inference\<close>

lemma unique_commands_named: "c \<in> set (unique_commands seen cs) \<Longrightarrow> cmd_name c \<noteq> []"
  by (induction cs arbitrary: seen) (auto simp: Let_def split: if_splits)

text \<open>
  Claim C10, as the code has it. During inference a markdown file that lies directly in the
  checkout root, and is not one of the known non-content files, makes inference return a
  manifest. When its name, taken from the front matter or, when the front matter has none,
  from the base name of the file, is not empty, the manifest has a command with that name
  and the root-relative file name as prompt file; a file whose front matter gives an empty
  name yields no command, since no command of the manifest is unnamed. A root file named
  \<open>readme.md\<close>, \<open>claude.md\<close>, \<open>agents.md\<close> or \<open>vibe.md\<close> in any letter case is the prompt
  file of no command.
\<close>

theorem infer_manifest_root_markdown:
  assumes "(n, nd) \<in> set es" and "matches_md n"
  shows "(py_lower n \<notin> set skip_files \<longrightarrow>
            (\<exists>m. infer_manifest pn (Dir es) = Some m \<and>
               (dict_get (read_frontmatter nd) ''name'' (py_stem n) \<noteq> [] \<longrightarrow>
                  (\<exists>c \<in> set (m_commands m).
                     cmd_name c = dict_get (read_frontmatter nd) ''name'' (py_stem n)
                     \<and> cmd_prompt_file c = n))))
       \<and> (read_frontmatter nd ''name'' = None \<longrightarrow>
            dict_get (read_frontmatter nd) ''name'' (py_stem n) = py_stem n \<and> py_stem n \<noteq> [])
       \<and> (py_lower n \<in> set skip_files \<longrightarrow>
            (\<forall>m. infer_manifest pn (Dir es) = Some m \<longrightarrow>
               (\<forall>c \<in> set (m_commands m). cmd_prompt_file c \<noteq> n)))
       \<and> (\<forall>m. infer_manifest pn (Dir es) = Some m \<longrightarrow> (\<forall>c \<in> set (m_commands m). cmd_name c \<noteq> []))"
proof -
  let ?all = "scan_dir (Dir es) ''commands'' @ scan_dir (Dir es) ''prompts''
                @ md_commands [] (glob_md (Dir es))"
  let ?nm = "dict_get (read_frontmatter nd) ''name'' (py_stem n)"
  have 1: "\<exists>m. infer_manifest pn (Dir es) = Some m \<and>
               (?nm \<noteq> [] \<longrightarrow> (\<exists>c \<in> set (m_commands m). cmd_name c = ?nm \<and> cmd_prompt_file c = n))"
    if ns: "py_lower n \<notin> set skip_files"
  proof -
    let ?c = "md_command [] ([], n, nd)"
    have cin: "?c \<in> set (md_commands [] (glob_md (Dir es)))"
      by (rule root_command_found[OF assms ns])
    from infer_manifest_Some[OF cin, of pn] obtain m where
      m: "infer_manifest pn (Dir es) = Some m" "m_commands m = unique_commands [] ?all"
      by blast
    have "\<exists>c \<in> set (m_commands m). cmd_name c = ?nm \<and> cmd_prompt_file c = n" if ne: "?nm \<noteq> []"
    proof -
      have "?c \<in> set ?all" using cin by simp
      moreover have "cmd_name ?c \<noteq> []" using ne by (simp add: md_command_root_fields)
      ultimately have "\<exists>c' \<in> set (unique_commands [] ?all).
          cmd_name c' = cmd_name ?c \<and> cmd_prompt_file c' = cmd_prompt_file ?c"
        using unique_commands_keeps_key[of ?c ?all "[]"] by simp
      then show ?thesis by (simp add: m(2) md_command_root_fields)
    qed
    with m(1) show ?thesis by blast
  qed
  have 2: "?nm = py_stem n \<and> py_stem n \<noteq> []" if "read_frontmatter nd ''name'' = None"
    using that py_stem_md_nonempty[OF assms(2)] by (simp add: dict_get_def)
  have 3: "cmd_prompt_file c \<noteq> n"
    if sk: "py_lower n \<in> set skip_files" and m: "infer_manifest pn (Dir es) = Some m"
      and c: "c \<in> set (m_commands m)" for m c
  proof
    assume eq: "cmd_prompt_file c = n"
    from c have "c \<in> set ?all"
      using unique_commands_subset[of "[]" ?all] infer_manifest_commands[OF m] by auto
    then consider "c \<in> set (scan_dir (Dir es) ''commands'')" | "c \<in> set (scan_dir (Dir es) ''prompts'')"
      | "c \<in> set (md_commands [] (glob_md (Dir es)))" by auto
    then show False
    proof cases
      case 1
      from scan_dir_prompt_file[OF 1] skip_name_no_slash[OF sk] eq show False by simp
    next
      case 2
      from scan_dir_prompt_file[OF 2] skip_name_no_slash[OF sk] eq show False by simp
    next
      case 3
      from root_prompt_file[OF 3] sk eq show False by simp
    qed
  qed
  have 4: "cmd_name c \<noteq> []" if "infer_manifest pn (Dir es) = Some m" "c \<in> set (m_commands m)" for m c
    using that unique_commands_named[of c "[]" ?all] infer_manifest_commands[OF that(1)] by simp
  from 1 2 3 4 show ?thesis by blast
qed

theorem infer_manifest_root_markdown_witness:
  "(\<exists>m. infer_manifest ''notes'' (Dir root_notes_checkout) = Some m
        \<and> (\<exists>c \<in> set (m_commands m). cmd_name c = ''triage'' \<and> cmd_prompt_file c = ''triage.md'')
        \<and> (\<forall>c \<in> set (m_commands m). cmd_prompt_file c \<noteq> ''README.md''))"
proof -
  have fm: "read_frontmatter (File (Some ''Sort the open issues.'')) = Map.empty"
    by (simp add: read_frontmatter_def py_startswith_def)
  have in1: "(''triage.md'', File (Some ''Sort the open issues.'')) \<in> set root_notes_checkout"
    and in2: "(''README.md'', File (Some ''About this plugin.'')) \<in> set root_notes_checkout"
    by (simp_all add: root_notes_checkout_def)
  have md: "matches_md ''triage.md''" "matches_md ''README.md''"
    by (simp_all add: matches_md_def py_endswith_def)
  have sk1: "py_lower ''triage.md'' \<notin> set skip_files"
    and sk2: "py_lower ''README.md'' \<in> set skip_files"
    by (simp_all add: skip_files_def py_lower_def py_lower_char_Char)
  have st: "py_stem ''triage.md'' = ''triage''" by (simp add: py_stem_def Let_def)
  from infer_manifest_root_markdown[OF in1 md(1), of "''notes''"] sk1 fm st
  obtain m where m: "infer_manifest ''notes'' (Dir root_notes_checkout) = Some m"
    and c: "\<exists>c \<in> set (m_commands m). cmd_name c = ''triage'' \<and> cmd_prompt_file c = ''triage.md''"
    by (auto simp: dict_get_def)
  from infer_manifest_root_markdown[OF in2 md(2), of "''notes''"] sk2 m
  have "\<forall>c \<in> set (m_commands m). cmd_prompt_file c \<noteq> ''README.md''" by simp
  with m c show ?thesis by blast
qed

lemma blank_name_lines:
  "py_splitlines blank_name_text = [''---'', ''name:'', ''---'', ''Do x.'']"
  by (simp add: py_splitlines_def blank_name_text_def is_linebreak_def)

lemma blank_name_frontmatter:
  "read_frontmatter (File (Some blank_name_text)) ''name'' = Some []"
proof -
  have s: "py_startswith ''---'' blank_name_text"
    by (simp add: py_startswith_def blank_name_text_def)
  have st: "py_strip ''name:'' \<noteq> ''---''" "py_strip ''---'' = ''---''"
    by (simp_all add: py_strip_def py_lstrip_def py_rstrip_def py_isspace_def)
  have fl: "frontmatter_line ''name:'' Map.empty = [''name'' \<mapsto> []]"
    by (simp add: frontmatter_line_def Let_def py_strip_def py_lstrip_def py_rstrip_def py_isspace_def)
  show ?thesis
    by (simp add: read_frontmatter_def s blank_name_lines Let_def st fl)
qed

theorem infer_manifest_root_markdown_counterexample:
  "matches_md ''x.md'' \<and> py_lower ''x.md'' \<notin> set skip_files
   \<and> infer_manifest ''notes'' (Dir blank_name_checkout) =
       Some \<lparr>m_name = ''notes'', m_version = ''1.0.0'', m_description = [], m_author = AuthorStr [],
              m_repository = [], m_commands = [], m_agents = [], m_mcp_server = None,
              m_prompts_dir = ''prompts''\<rparr>"
proof -
  have md: "matches_md ''x.md''" by (simp add: matches_md_def py_endswith_def)
  have sk: "py_lower ''x.md'' \<notin> set skip_files"
    by (simp add: skip_files_def py_lower_def py_lower_char_Char)
  have ns: "not_skipped ([], ''x.md'', File (Some blank_name_text))"
    using sk by (simp add: not_skipped_def)
  have nm: "cmd_name (md_command [] ([], ''x.md'', File (Some blank_name_text))) = []"
    by (simp add: md_command_def Let_def dict_get_def blank_name_frontmatter)
  have g: "md_commands [] (glob_md (Dir blank_name_checkout))
      = [md_command [] ([], ''x.md'', File (Some blank_name_text))]"
    by (simp add: md_commands_def glob_md_def blank_name_checkout_def md ns)
  have sc: "scan_dir (Dir blank_name_checkout) ''commands'' = []"
    "scan_dir (Dir blank_name_checkout) ''prompts'' = []"
    by (simp_all add: scan_dir_def blank_name_checkout_def)
  have da: "discover_agents (Dir blank_name_checkout) = []"
    by (simp add: discover_agents_def blank_name_checkout_def)
  have "infer_manifest ''notes'' (Dir blank_name_checkout) =
       Some \<lparr>m_name = ''notes'', m_version = ''1.0.0'', m_description = [], m_author = AuthorStr [],
              m_repository = [], m_commands = [], m_agents = [], m_mcp_server = None,
              m_prompts_dir = ''prompts''\<rparr>"
    by (simp add: infer_manifest_def Let_def sc g da nm)
  with md sk show ?thesis by simp
qed

subsection \<open>Manifest discovery order and contents\<close>



lemma convert_manifest_dict:
  assumes "convert_manifest data pn root = Inr m"
  shows "\<exists>d. data = JObj d"
  using assms by (cases data) (simp_all add: convert_manifest_def)












subsection \<open>A manifest renamed between two installs\<close>

lemma parse_single_plugin_json:
  assumes "loads body = Some (JObj [(''name'', JStr nm)])"
  shows "parse_manifest loads pn (Dir [(''plugin.json'', File (Some body))]) =
     Some \<lparr>m_name = nm, m_version = ''1.0.0'', m_description = [], m_author = AuthorStr [],
           m_repository = [], m_commands = [], m_agents = [], m_mcp_server = None,
           m_prompts_dir = ''prompts''\<rparr>"
proof -
  let ?root = "Dir [(''plugin.json'', File (Some body))]"
  let ?m = "\<lparr>m_name = nm, m_version = ''1.0.0'', m_description = [], m_author = AuthorStr [],
           m_repository = [], m_commands = [], m_agents = [], m_mcp_server = None,
           m_prompts_dir = ''prompts''\<rparr>"
  have n: "\<forall>j<3. try_manifest loads pn ?root (MANIFEST_PATHS ! j) = None"
  proof (intro allI impI)
    fix j :: nat assume "j < 3"
    then consider "j = 0" | "j = 1" | "j = 2" by linarith
    then show "try_manifest loads pn ?root (MANIFEST_PATHS ! j) = None"
      by cases (simp_all add: MANIFEST_PATHS_def try_manifest_def split_slash_def)
  qed
  have cv: "convert_manifest (JObj [(''name'', JStr nm)]) pn ?root = Inr ?m"
    by (simp add: convert_manifest_def manifest_header_def explicit_commands_def explicit_agents_def
        json_get_def discover_agents_def scan_dir_def validate_manifest_def)
  have lp: "lookup_path ?root (split_slash ''plugin.json'') = Some (File (Some body))"
    by (simp add: split_slash_def)
  have "try_manifest loads pn ?root ''plugin.json'' = Some ?m"
    unfolding try_manifest_def lp by (simp add: assms cv)
  then have t: "try_manifest loads pn ?root (MANIFEST_PATHS ! 3) = Some ?m"
    by (simp add: MANIFEST_PATHS_def)
  show ?thesis
    unfolding parse_manifest_def
    by (rule parse_manifest_from_first[of 3, OF _ n t]) (simp add: MANIFEST_PATHS_def)
qed

lemma entry_name_one:
  "entry_name rename_world ''acme/notes'' (Some (Dir [(''plugin.json'', File (Some one_json_text))])) = ''one''"
proof -
  have "loads_names one_json_text = Some (JObj [(''name'', JStr ''one'')])"
    by (simp add: loads_names_def)
  from parse_single_plugin_json[where loads = loads_names and body = one_json_text, OF this]
  show ?thesis by (simp add: entry_name_def rename_world_def)
qed

lemma entry_name_two:
  "entry_name rename_world ''acme/notes'' (Some (Dir [(''plugin.json'', File (Some two_json_text))])) = ''two''"
proof -
  have "two_json_text \<noteq> one_json_text" by (simp add: two_json_text_def one_json_text_def)
  then have "loads_names two_json_text = Some (JObj [(''name'', JStr ''two'')])"
    by (simp add: loads_names_def)
  from parse_single_plugin_json[where loads = loads_names and body = two_json_text, OF this]
  show ?thesis by (simp add: entry_name_def rename_world_def)
qed

lemma dict_set_paths:
  "map (\<lambda>kv. ip_install_path (snd kv)) (dict_set k v d) =
     (if k \<in> fst ` set d then map (\<lambda>kv. ip_install_path (snd kv)) (dict_set k v d)
      else map (\<lambda>kv. ip_install_path (snd kv)) d @ [ip_install_path v])"
  by (induction d) auto

text \<open>
  When the clone names the plugin \<open>one\<close> and the pull names it \<open>two\<close>, the second call
  adds a key, and the registry holds two entries for the one checkout \<open>home/plugins/notes\<close>.
\<close>

theorem install_twice_counterexample:
  "map fst (installed (snd (install rename_world ''acme/notes'' None demo_store))) = [''demo'', ''one'']
   \<and> map fst (installed (snd (install rename_world ''acme/notes'' None
        (snd (install rename_world ''acme/notes'' None demo_store))))) = [''demo'', ''one'', ''two'']
   \<and> map (\<lambda>kv. ip_install_path (snd kv)) (installed (snd (install rename_world ''acme/notes'' None
        (snd (install rename_world ''acme/notes'' None demo_store))))) =
      [''home/plugins/demo'', ''home/plugins/notes'', ''home/plugins/notes'']"
proof -
  let ?w = rename_world
  let ?path = "''home/plugins/notes''"
  let ?t1 = "Dir [(''plugin.json'', File (Some one_json_text))]"
  let ?t2 = "Dir [(''plugin.json'', File (Some two_json_text))]"
  let ?st1 = "snd (install ?w ''acme/notes'' None demo_store)"
  let ?st2 = "snd (install ?w ''acme/notes'' None ?st1)"
  have "disk demo_store ?path = None" by (simp add: demo_store_def)
  then have fresh: "disk demo_store (install_path_of demo_store ''acme/notes'') = None"
    by (simp only: install_path_notes)
  have clone: "git_clone ?w (clone_url ''acme/notes'') (install_path_of demo_store ''acme/notes'')
      = (0, Some ?t1)"
    by (simp add: rename_world_def)
  note c0 = checkout_clone_ok[OF fresh clone]
  note i1 = install_after_checkout[OF resolve_acme_notes c0]
  have ins0: "installed demo_store = [(''demo'', demo_plugin)]" by (simp add: demo_store_def)
  have k1: "map fst (installed ?st1) = [''demo'', ''one'']"
    unfolding i1(1) by (simp add: install_path_notes entry_name_one ins0)
  have p1: "map (\<lambda>kv. ip_install_path (snd kv)) (installed ?st1) = [''home/plugins/demo'', ?path]"
    unfolding i1(1) by (simp add: install_path_notes entry_name_one ins0 demo_plugin_def)
  have d1: "disk ?st1 (install_path_of ?st1 ''acme/notes'') = Some ?t1"
    using i1(3,5) by (simp add: install_path_of_def)
  have rs1: "resolve_source ?w ?st1 ''acme/notes'' None = Inr ''acme/notes''"
    using resolve_source_marketplaces[of ?st1 demo_store ?w "''acme/notes''" None] i1(4)
      resolve_acme_notes[of ?w] by simp
  have ip1: "install_path_of ?st1 ''acme/notes'' = ?path"
    using install_path_of_plugins_dir[of ?st1 demo_store "''acme/notes''"] i1(5)
    by (simp add: install_path_notes)
  have gp: "git_pull ?w (install_path_of ?st1 ''acme/notes'') (Some ?t1) = (0, Some ?t2)"
    by (simp add: rename_world_def)
  have c1: "checkout ?w ?st1 ''acme/notes'' =
      (Inr (), ?st1\<lparr>disk := (disk ?st1)(install_path_of ?st1 ''acme/notes'' := Some ?t2),
           git_calls := git_calls ?st1 @ [GitPull (install_path_of ?st1 ''acme/notes'')]\<rparr>)"
    using checkout_pull[OF d1 gp] by simp
  note i2 = install_after_checkout[OF rs1 c1]
  have nk: "''two'' \<notin> fst ` set (installed ?st1)"
  proof -
    have "''two'' \<notin> set (map fst (installed ?st1))" unfolding k1 by simp
    then show ?thesis by simp
  qed
  obtain p where e2: "installed ?st2 = dict_set ''two'' p (installed ?st1)"
    and pp: "ip_install_path p = ?path"
    using i2(1) ip1 by (simp add: entry_name_two)
  have "map fst (installed ?st2) = map fst (installed ?st1) @ [''two'']"
    unfolding e2 dict_set_keys using nk by (simp only: if_False)
  then have k2: "map fst (installed ?st2) = [''demo'', ''one'', ''two'']" by (simp add: k1)
  have "map (\<lambda>kv. ip_install_path (snd kv)) (installed ?st2)
      = map (\<lambda>kv. ip_install_path (snd kv)) (installed ?st1) @ [ip_install_path p]"
    unfolding e2 using nk by (subst dict_set_paths) (simp only: if_False)
  then have p2: "map (\<lambda>kv. ip_install_path (snd kv)) (installed ?st2)
      = [''home/plugins/demo'', ?path, ?path]" by (simp add: p1 pp)
  from k1 k2 p2 show ?thesis by simp
qed

end
